theory Spec2Isabelle
  imports Complex_Main "HOL-Library.Sublist" "HOL-Library.AList" "HOL-Library.Word"
begin

section \<open>The session server: data model\<close>

text \<open>
  A shallow embedding of the session server: \<open>spawnAgent\<close>, \<open>translateEvent\<close>,
  \<open>translateToolUse\<close>, \<open>relativePath\<close> and the routes of \<open>/api/session\<close>. The file-system
  routes and the demo replay are not part of it. The monitor server
  (\<open>monitor/server.js\<close>) has the same decoder and the same session routes, and no
  translation layer; its handler of lines is \<open>monitor_handle_line\<close>.

  Conventions:
  \<^item> a JavaScript string is a \<open>string\<close>, one \<open>char\<close> for one code unit below 0x100;
  \<^item> a value that \<open>JSON.parse\<close> can return, or \<open>undefined\<close>, is a \<open>jsval\<close>; an object is
    the list of its properties, each key once; a number is the rational it denotes, the
    two zeros being one;
  \<^item> a thrown exception is a value of type \<open>error\<close>;
  \<^item> \<open>broadcast\<close> appends to the \<open>log\<close> of the server: the sequence of events handed to
    the connected observers, in order;
  \<^item> the \<open>timestamp\<close> field of an event and the \<open>startedAt\<close> field of a session (both
    \<open>Date.now()\<close>) are left out: nothing in the code reads them;
  \<^item> what the code takes from the platform and this repository does not define
    (\<open>JSON.parse\<close>, \<open>JSON.stringify\<close>, the string conversion of a template literal,
    \<open>toLowerCase\<close>, \<open>Buffer.toString\<close>) is a field of the parameter \<open>runtime\<close>.
\<close>

type_synonym bytes = "8 word list"

datatype jsval =
    Undefined
  | Null
  | Bool bool
  | Num rat
  | Str string
  | Arr "jsval list"
  | Obj "(string \<times> jsval) list"

datatype error = TypeError | SyntaxError | SpawnError

record runtime =
  JSON_parse :: "string \<Rightarrow> jsval option"
  JSON_stringify :: "jsval \<Rightarrow> jsval"
  ToString :: "jsval \<Rightarrow> error + string"
  toLowerCase :: "string \<Rightarrow> string"
  Buffer_toString :: "bytes \<Rightarrow> string"

text \<open>
  \<open>JSON_parse rt line = None\<close> stands for the SyntaxError \<open>JSON.parse\<close> throws;
  \<open>JSON_stringify rt v\<close> is \<open>JSON.stringify(v, null, 2)\<close>, which returns \<open>undefined\<close> for
  \<open>undefined\<close>; \<open>ToString rt v\<close> is the conversion a template literal applies to a
  number, an array or an object, which may throw.
\<close>

fun truthy :: "jsval \<Rightarrow> bool" where
  "truthy Undefined = False"
| "truthy Null = False"
| "truthy (Bool b) = b"
| "truthy (Num n) = (n \<noteq> 0)"
| "truthy (Str s) = (s \<noteq> [])"
| "truthy (Arr xs) = True"
| "truthy (Obj kvs) = True"

fun nullish :: "jsval \<Rightarrow> bool" where
  "nullish Undefined = True"
| "nullish Null = True"
| "nullish v = False"

text \<open>
  \<open>field v k\<close> is the property read \<open>v.k\<close> on a value that is neither \<open>undefined\<close> nor
  \<open>null\<close> (there the read throws, and every caller tests \<open>nullish\<close> first). None of the
  keys the code reads is a property of a string, number, boolean or array, or inherited
  by a plain object, so such a read is \<open>undefined\<close>.
\<close>

fun field :: "jsval \<Rightarrow> string \<Rightarrow> jsval" where
  "field (Obj kvs) k = (case map_of kvs k of Some v \<Rightarrow> v | None \<Rightarrow> Undefined)"
| "field v k = Undefined"

text \<open>\<open>a || b\<close>\<close>

definition or_else :: "jsval \<Rightarrow> jsval \<Rightarrow> jsval" where
  "or_else a b = (if truthy a then a else b)"

text \<open>\<open>for (const block of v)\<close>: an array gives its elements, a string its characters,
  anything else is not iterable.\<close>

fun iterate :: "jsval \<Rightarrow> error + jsval list" where
  "iterate (Arr xs) = Inr xs"
| "iterate (Str s) = Inr (map (\<lambda>c. Str [c]) s)"
| "iterate v = Inl TypeError"

text \<open>The string a template literal puts for \<open>${v}\<close>.\<close>

definition template :: "runtime \<Rightarrow> jsval \<Rightarrow> error + string" where
  "template rt v =
     (case v of
        Str s \<Rightarrow> Inr s
      | Undefined \<Rightarrow> Inr ''undefined''
      | Null \<Rightarrow> Inr ''null''
      | Bool b \<Rightarrow> Inr (if b then ''true'' else ''false'')
      | _ \<Rightarrow> ToString rt v)"

subsection \<open>Events\<close>

datatype event =
    session_start string jsval string
  | session_end string "int option"
  | agent_event string jsval
  | claude_event string jsval
  | raw_output string string
  | stderr string string
  | fe_init string jsval jsval jsval
  | fe_result string bool jsval jsval jsval
  | fe_assistant_text string jsval
  | fe_tool_call string jsval "(string \<times> jsval) list"
  | fe_tool_result string jsval jsval
  | fe_file_changed string jsval string

text \<open>
  The first argument is the \<open>sessionId\<close>. Then: \<open>session_start\<close> has \<open>prompt\<close> and \<open>cwd\<close>;
  \<open>session_end\<close> has \<open>exitCode\<close> (\<open>None\<close> is \<open>null\<close>); \<open>agent_event\<close> and, in the monitor
  server, \<open>claude_event\<close> have \<open>event\<close>;
  \<open>raw_output\<close> and \<open>stderr\<close> have \<open>text\<close>; \<open>fe_init\<close> has \<open>model\<close>, \<open>tools\<close>, \<open>cwd\<close>;
  \<open>fe_result\<close> has \<open>success\<close>, \<open>result\<close>, \<open>numTurns\<close>, \<open>costUsd\<close>; \<open>fe_assistant_text\<close> has
  \<open>text\<close>; \<open>fe_tool_call\<close> has \<open>toolCallId\<close> and the fields of the translated object;
  \<open>fe_tool_result\<close> has \<open>toolCallId\<close> and \<open>output\<close>; \<open>fe_file_changed\<close> has \<open>filePath\<close> and
  \<open>action\<close>.
\<close>

fun sessionId :: "event \<Rightarrow> string" where
  "sessionId (session_start s p c) = s"
| "sessionId (session_end s x) = s"
| "sessionId (agent_event s e) = s"
| "sessionId (claude_event s e) = s"
| "sessionId (raw_output s t) = s"
| "sessionId (stderr s t) = s"
| "sessionId (fe_init s m t c) = s"
| "sessionId (fe_result s b r n c) = s"
| "sessionId (fe_assistant_text s t) = s"
| "sessionId (fe_tool_call s i t) = s"
| "sessionId (fe_tool_result s i out) = s"
| "sessionId (fe_file_changed s p a) = s"

text \<open>The \<open>type\<close> field of an event.\<close>

fun event_type :: "event \<Rightarrow> string" where
  "event_type (session_start s p c) = ''session_start''"
| "event_type (session_end s x) = ''session_end''"
| "event_type (agent_event s e) = ''agent_event''"
| "event_type (claude_event s e) = ''claude_event''"
| "event_type (raw_output s t) = ''raw_output''"
| "event_type (stderr s t) = ''stderr''"
| "event_type (fe_init s m t c) = ''fe_init''"
| "event_type (fe_result s b r n c) = ''fe_result''"
| "event_type (fe_assistant_text s t) = ''fe_assistant_text''"
| "event_type (fe_tool_call s i t) = ''fe_tool_call''"
| "event_type (fe_tool_result s i out) = ''fe_tool_result''"
| "event_type (fe_file_changed s p a) = ''fe_file_changed''"

subsection \<open>The map \<open>fileChanges\<close>\<close>

record change =
  filePath :: jsval
  action :: string

text \<open>
  A JavaScript \<open>Map\<close> keeps its entries in insertion order and compares keys with
  SameValueZero: primitive keys by value, arrays and objects by identity. Every array or
  object that reaches the map as a key was made by one \<open>JSON.parse\<close> call and is met once,
  so it is equal to no other key.
\<close>

type_synonym fileChanges = "(jsval \<times> change) list"

fun primitive :: "jsval \<Rightarrow> bool" where
  "primitive (Arr xs) = False"
| "primitive (Obj kvs) = False"
| "primitive v = True"

definition same_key :: "jsval \<Rightarrow> jsval \<Rightarrow> bool" where
  "same_key a b = (primitive a \<and> a = b)"

fun map_get :: "fileChanges \<Rightarrow> jsval \<Rightarrow> change option" where
  "map_get [] k = None"
| "map_get ((k', c) # m) k = (if same_key k' k then Some c else map_get m k)"

fun map_set :: "fileChanges \<Rightarrow> jsval \<Rightarrow> change \<Rightarrow> fileChanges" where
  "map_set [] k c = [(k, c)]"
| "map_set ((k', c') # m) k c =
     (if same_key k' k then (k', c) # m else (k', c') # map_set m k c)"

section \<open>The translation layer\<close>

text \<open>
  \<open>relativePath(filePath, workDir)\<close>. \<open>filePath.startsWith\<close> is a function only when
  \<open>filePath\<close> is a string; \<open>slice(n)\<close> with \<open>n\<close> past the end is the empty string, as \<open>drop\<close>.
\<close>

definition relativePath :: "jsval \<Rightarrow> string \<Rightarrow> error + jsval" where
  "relativePath fp workDir =
     (if \<not> truthy fp \<or> workDir = [] then Inr (or_else fp (Str []))
      else (case fp of
              Str s \<Rightarrow>
                Inr (Str (if prefix workDir s then drop (length workDir + 1) s else s))
            | _ \<Rightarrow> Inl TypeError))"

text \<open>The text \<open>${relativePath(filePath, workDir)}\<close> of a description.\<close>

definition path_text :: "runtime \<Rightarrow> jsval \<Rightarrow> string \<Rightarrow> error + string" where
  "path_text rt fp workDir =
     (case relativePath fp workDir of
        Inl e \<Rightarrow> Inl e
      | Inr r \<Rightarrow> template rt r)"

text \<open>
  \<open>translateToolUse(block, workDir, fileChanges)\<close> returns the map as it is when the call
  returns or throws, and the translated object or the exception. A read \<open>input.k\<close> throws
  when \<open>input\<close> is \<open>undefined\<close> or \<open>null\<close>; in the arms \<open>Write\<close> and \<open>Edit\<close> that is before
  \<open>fileChanges.set\<close> is called, and the description is computed after it.
\<close>

definition translateToolUse ::
  "runtime \<Rightarrow> jsval \<Rightarrow> string \<Rightarrow> fileChanges \<Rightarrow> fileChanges \<times> (error + (string \<times> jsval) list)"
where
  "translateToolUse rt block workDir fc =
     (let name = field block ''name'';
          input = field block ''input'';
          tool_id = field block ''id''
      in
      if name = Str ''Write'' then
        (if nullish input then (fc, Inl TypeError)
         else
           (map_set fc tool_id \<lparr>filePath = field input ''file_path'', action = ''write''\<rparr>,
            map_sum (\<lambda>e. e)
              (\<lambda>d. [(''tool'', Str ''write''),
                    (''filePath'', field input ''file_path''),
                    (''content'', field input ''content''),
                    (''description'', Str (''Create '' @ d))])
              (path_text rt (field input ''file_path'') workDir)))
      else if name = Str ''Edit'' then
        (if nullish input then (fc, Inl TypeError)
         else
           (map_set fc tool_id \<lparr>filePath = field input ''file_path'', action = ''edit''\<rparr>,
            map_sum (\<lambda>e. e)
              (\<lambda>d. [(''tool'', Str ''edit''),
                    (''filePath'', field input ''file_path''),
                    (''oldString'', field input ''old_string''),
                    (''newString'', field input ''new_string''),
                    (''description'', Str (''Edit '' @ d))])
              (path_text rt (field input ''file_path'') workDir)))
      else if name = Str ''Read'' then
        (if nullish input then (fc, Inl TypeError)
         else
           (fc,
            map_sum (\<lambda>e. e)
              (\<lambda>d. [(''tool'', Str ''read''),
                    (''filePath'', field input ''file_path''),
                    (''description'', Str (''Read '' @ d))])
              (path_text rt (field input ''file_path'') workDir)))
      else if name = Str ''Bash'' then
        (if nullish input then (fc, Inl TypeError)
         else
           (fc,
            Inr [(''tool'', Str ''bash''),
                 (''command'', field input ''command''),
                 (''description'',
                    or_else (field input ''description'') (field input ''command''))]))
      else if name = Str ''Glob'' then
        (if nullish input then (fc, Inl TypeError)
         else
           (fc,
            map_sum (\<lambda>e. e)
              (\<lambda>d. [(''tool'', Str ''glob''),
                    (''pattern'', field input ''pattern''),
                    (''description'', Str (''Search for '' @ d))])
              (template rt (field input ''pattern''))))
      else if name = Str ''Grep'' then
        (if nullish input then (fc, Inl TypeError)
         else
           (fc,
            map_sum (\<lambda>e. e)
              (\<lambda>d. [(''tool'', Str ''grep''),
                    (''pattern'', field input ''pattern''),
                    (''path'', field input ''path''),
                    (''description'', Str (''Grep /'' @ d @ ''/''))])
              (template rt (field input ''pattern''))))
      else if name = Str ''Task'' then
        (if nullish input then (fc, Inl TypeError)
         else
           (fc,
            (case template rt (field input ''subagent_type'') of
               Inl e \<Rightarrow> Inl e
             | Inr t \<Rightarrow>
                 map_sum (\<lambda>e. e)
                   (\<lambda>d. [(''tool'', Str ''task''),
                         (''subagentType'', field input ''subagent_type''),
                         (''taskDescription'', field input ''description''),
                         (''prompt'', field input ''prompt''),
                         (''description'', Str (''['' @ t @ ''] '' @ d))])
                   (template rt (or_else (field input ''description'') (Str []))))))
      else
        (case name of
           Str n \<Rightarrow>
             (fc,
              Inr [(''tool'', Str (toLowerCase rt n)),
                   (''input'', input),
                   (''description'', Str (n @ '' call''))])
         | _ \<Rightarrow> (fc, Inl TypeError)))"

text \<open>\<open>event.message?.content\<close>\<close>

definition message_content :: "jsval \<Rightarrow> jsval" where
  "message_content event =
     (let message = field event ''message''
      in if nullish message then Undefined else field message ''content'')"

text \<open>
  The loop over the blocks of an assistant message. The result is the events broadcast,
  the map, and the exception that ended the loop, if one did. \<open>block.type\<close> throws on a
  \<open>null\<close> block.
\<close>

fun assistant_blocks ::
  "runtime \<Rightarrow> string \<Rightarrow> string \<Rightarrow> jsval list \<Rightarrow> fileChanges \<Rightarrow>
     event list \<times> fileChanges \<times> error option"
where
  "assistant_blocks rt sid workDir [] fc = ([], fc, None)"
| "assistant_blocks rt sid workDir (block # rest) fc =
     (if nullish block then ([], fc, Some TypeError)
      else if field block ''type'' = Str ''text'' \<and> truthy (field block ''text'') then
        (case assistant_blocks rt sid workDir rest fc of
           (evs, fc', thrown) \<Rightarrow>
             (fe_assistant_text sid (field block ''text'') # evs, fc', thrown))
      else if field block ''type'' = Str ''tool_use'' then
        (case translateToolUse rt block workDir fc of
           (fc1, Inl e) \<Rightarrow> ([], fc1, Some e)
         | (fc1, Inr translated) \<Rightarrow>
             (case assistant_blocks rt sid workDir rest fc1 of
                (evs, fc', thrown) \<Rightarrow>
                  (fe_tool_call sid (field block ''id'') translated # evs, fc', thrown)))
      else assistant_blocks rt sid workDir rest fc)"

text \<open>\<open>typeof block.content === "string" ? block.content : JSON.stringify(block.content, null, 2)\<close>\<close>

definition result_text :: "runtime \<Rightarrow> jsval \<Rightarrow> jsval" where
  "result_text rt block =
     (case field block ''content'' of
        Str s \<Rightarrow> Str s
      | c \<Rightarrow> JSON_stringify rt c)"

text \<open>
  The loop over the blocks of a user message. It reads the map with \<open>fileChanges.get\<close>
  and never writes it.
\<close>

fun user_blocks ::
  "runtime \<Rightarrow> string \<Rightarrow> jsval list \<Rightarrow> fileChanges \<Rightarrow> event list \<times> error option"
where
  "user_blocks rt sid [] fc = ([], None)"
| "user_blocks rt sid (block # rest) fc =
     (if nullish block then ([], Some TypeError)
      else if field block ''type'' = Str ''tool_result'' then
        (let text = result_text rt block;
             result = fe_tool_result sid (field block ''tool_use_id'') text;
             changed = (case map_get fc (field block ''tool_use_id'') of
                          Some change \<Rightarrow>
                            [fe_file_changed sid (filePath change) (action change)]
                        | None \<Rightarrow> [])
         in (case user_blocks rt sid rest fc of
               (evs, thrown) \<Rightarrow> (result # changed @ evs, thrown)))
      else user_blocks rt sid rest fc)"

definition translateEvent ::
  "runtime \<Rightarrow> string \<Rightarrow> jsval \<Rightarrow> string \<Rightarrow> fileChanges \<Rightarrow>
     event list \<times> fileChanges \<times> error option"
where
  "translateEvent rt sid event workDir fc =
     (if nullish event then ([], fc, Some TypeError)
      else if field event ''type'' = Str ''system'' \<and> field event ''subtype'' = Str ''init''
      then
        ([fe_init sid (field event ''model'') (field event ''tools'')
            (or_else (field event ''cwd'') (Str workDir))], fc, None)
      else if field event ''type'' = Str ''result'' then
        ([fe_result sid (\<not> truthy (field event ''is_error'')) (field event ''result'')
            (field event ''num_turns'') (field event ''total_cost_usd'')], fc, None)
      else if field event ''type'' = Str ''assistant'' \<and> truthy (message_content event)
      then
        (case iterate (message_content event) of
           Inl e \<Rightarrow> ([], fc, Some e)
         | Inr blocks \<Rightarrow> assistant_blocks rt sid workDir blocks fc)
      else if field event ''type'' = Str ''user'' \<and> truthy (message_content event) then
        (case message_content event of
           Arr blocks \<Rightarrow>
             (case user_blocks rt sid blocks fc of (evs, thrown) \<Rightarrow> (evs, fc, thrown))
         | _ \<Rightarrow> ([], fc, None))
      else ([], fc, None))"

section \<open>The frame decoder and the handler of subprocess output\<close>

definition newline :: char where
  "newline = CHR 0x0A"

text \<open>
  \<open>s.split("\n")\<close>: never the empty array; \<open>"".split("\n")\<close> is \<open>[""]\<close>. So the first
  case of the \<open>case\<close> below does not occur (\<open>split_nl_nonempty\<close>).
\<close>

fun split_nl :: "string \<Rightarrow> string list" where
  "split_nl [] = [[]]"
| "split_nl (c # cs) =
     (if c = newline then [] # split_nl cs
      else (case split_nl cs of
              [] \<Rightarrow> [[c]]
            | l # ls \<Rightarrow> (c # l) # ls))"

text \<open>
  \<open>buffer += chunk.toString(); const lines = buffer.split("\n"); buffer = lines.pop();\<close>
  on the text of the chunk: the lines to handle and the new buffer. \<open>pop\<close> takes the last
  element, which exists.
\<close>

definition decode_chunk :: "string \<Rightarrow> string \<Rightarrow> string list \<times> string" where
  "decode_chunk buffer text =
     (let buffer1 = buffer @ text;
          lines = split_nl buffer1
      in (butlast lines, last lines))"

text \<open>The decoder over a sequence of chunks: all the lines it yields, and the buffer left.\<close>

fun decode_all :: "string \<Rightarrow> string list \<Rightarrow> string list \<times> string" where
  "decode_all buffer [] = ([], buffer)"
| "decode_all buffer (t # ts) =
     (case decode_chunk buffer t of
        (lines, buffer') \<Rightarrow>
          (case decode_all buffer' ts of
             (lines', rest) \<Rightarrow> (lines @ lines', rest)))"

text \<open>The lines with their separators put back.\<close>

definition restore :: "string list \<Rightarrow> string" where
  "restore frames = concat (map (\<lambda>f. f @ [newline]) frames)"

text \<open>\<open>line.trim()\<close> removes white space and line terminators at both ends.\<close>

definition isWhiteSpace :: "char \<Rightarrow> bool" where
  "isWhiteSpace c =
     (c \<in> set [CHR 0x09, CHR 0x0A, CHR 0x0B, CHR 0x0C, CHR 0x0D, CHR 0x20, CHR 0xA0])"

definition trim :: "string \<Rightarrow> string" where
  "trim s = rev (dropWhile isWhiteSpace (rev (dropWhile isWhiteSpace s)))"

text \<open>
  The body of \<open>for (const line of lines)\<close>: the events broadcast for one line and the map
  after it. The \<open>catch\<close> takes the SyntaxError of \<open>JSON.parse\<close> and every exception of
  \<open>translateEvent\<close>, after what was broadcast before the throw.
\<close>

definition handle_line ::
  "runtime \<Rightarrow> string \<Rightarrow> string \<Rightarrow> string \<Rightarrow> fileChanges \<Rightarrow> event list \<times> fileChanges"
where
  "handle_line rt sid workDir line fc =
     (if trim line = [] then ([], fc)
      else
        (case JSON_parse rt line of
           None \<Rightarrow> ([raw_output sid line], fc)
         | Some event \<Rightarrow>
             (case translateEvent rt sid event workDir fc of
                (evs, fc', thrown) \<Rightarrow>
                  (agent_event sid event # evs @
                     (case thrown of None \<Rightarrow> [] | Some e \<Rightarrow> [raw_output sid line]),
                   fc'))))"

text \<open>The same loop body in the monitor server, which has no translation.\<close>

definition monitor_handle_line :: "runtime \<Rightarrow> string \<Rightarrow> string \<Rightarrow> event list" where
  "monitor_handle_line rt sid line =
     (if trim line = [] then []
      else
        (case JSON_parse rt line of
           None \<Rightarrow> [raw_output sid line]
         | Some event \<Rightarrow> [claude_event sid event]))"

fun handle_lines ::
  "runtime \<Rightarrow> string \<Rightarrow> string \<Rightarrow> string list \<Rightarrow> fileChanges \<Rightarrow> event list \<times> fileChanges"
where
  "handle_lines rt sid workDir [] fc = ([], fc)"
| "handle_lines rt sid workDir (line # lines) fc =
     (case handle_line rt sid workDir line fc of
        (evs, fc1) \<Rightarrow>
          (case handle_lines rt sid workDir lines fc1 of
             (evs', fc2) \<Rightarrow> (evs @ evs', fc2)))"

section \<open>Sessions\<close>

text \<open>
  A \<open>proc\<close> is one spawned subprocess with the variables its callbacks close over
  (\<open>sessionId\<close>, \<open>prompt\<close>, \<open>workDir\<close>, \<open>buffer\<close>, \<open>fileChanges\<close>), whether its \<open>close\<close> event has been
  emitted, and how many times it was sent SIGTERM. The processes of a server are numbered
  in the order they were spawned. A \<open>session\<close> is an entry of the map \<open>sessions\<close>; its
  \<open>proc\<close> is the number of the process, and its \<open>fileChanges\<close> is the map of that process
  (the same object in the code).
\<close>

record proc =
  p_sessionId :: string
  p_prompt :: jsval
  p_workDir :: string
  buffer :: string
  fileChanges :: fileChanges
  closed :: bool
  sigterm :: nat

record session =
  s_proc :: nat
  s_prompt :: jsval
  s_cwd :: string

record server =
  sessions :: "(string \<times> session) list"
  procs :: "proc list"
  log :: "event list"

definition init :: server where
  "init = \<lparr>sessions = [], procs = [], log = []\<rparr>"

definition broadcast :: "event list \<Rightarrow> server \<Rightarrow> server" where
  "broadcast evs srv = srv\<lparr>log := log srv @ evs\<rparr>"

definition update_proc :: "nat \<Rightarrow> (proc \<Rightarrow> proc) \<Rightarrow> server \<Rightarrow> server" where
  "update_proc pid f srv =
     (if pid < length (procs srv) then srv\<lparr>procs := (procs srv)[pid := f (procs srv ! pid)]\<rparr>
      else srv)"

text \<open>
  \<open>spawnAgent(prompt, cwd)\<close>. The session id (made from \<open>Date.now()\<close> and
  \<open>Math.random()\<close>) and whether \<open>spawn\<close> returns a process are given by the environment;
  \<open>spawn\<close> throws on a \<open>cwd\<close> option that is not a path.
\<close>

definition spawnAgent ::
  "string \<Rightarrow> jsval \<Rightarrow> jsval \<Rightarrow> string \<Rightarrow> bool \<Rightarrow> server \<Rightarrow> error + string \<times> server"
where
  "spawnAgent PROJECT_DIR prompt cwd sid spawned srv =
     (case or_else cwd (Str PROJECT_DIR) of
        Str workDir \<Rightarrow>
          (if spawned then
             (let p = \<lparr>p_sessionId = sid, p_prompt = prompt, p_workDir = workDir, buffer = [],
                       fileChanges = [], closed = False, sigterm = 0\<rparr>;
                  s = \<lparr>s_proc = length (procs srv), s_prompt = prompt, s_cwd = workDir\<rparr>;
                  srv1 = srv\<lparr>procs := procs srv @ [p]\<rparr>;
                  srv2 = srv1\<lparr>sessions := AList.update sid s (sessions srv1)\<rparr>
              in Inr (sid, broadcast [session_start sid prompt workDir] srv2))
           else Inl SpawnError)
      | _ \<Rightarrow> Inl TypeError)"

text \<open>The callbacks of a process, on the process \<open>pid\<close> of the server.\<close>

definition on_stdout_data :: "runtime \<Rightarrow> nat \<Rightarrow> bytes \<Rightarrow> server \<Rightarrow> server" where
  "on_stdout_data rt pid chunk srv =
     (let p = procs srv ! pid
      in (case decode_chunk (buffer p) (Buffer_toString rt chunk) of
            (lines, buffer') \<Rightarrow>
              (case handle_lines rt (p_sessionId p) (p_workDir p) lines (fileChanges p) of
                 (evs, fc') \<Rightarrow>
                   broadcast evs
                     (update_proc pid (\<lambda>p. p\<lparr>buffer := buffer', fileChanges := fc'\<rparr>) srv))))"

definition on_stderr_data :: "runtime \<Rightarrow> nat \<Rightarrow> bytes \<Rightarrow> server \<Rightarrow> server" where
  "on_stderr_data rt pid chunk srv =
     broadcast [stderr (p_sessionId (procs srv ! pid)) (Buffer_toString rt chunk)] srv"

definition on_close :: "nat \<Rightarrow> int option \<Rightarrow> server \<Rightarrow> server" where
  "on_close pid code srv =
     (let sid = p_sessionId (procs srv ! pid);
          srv1 = srv\<lparr>sessions := AList.delete sid (sessions srv)\<rparr>
      in broadcast [session_end sid code] srv1)"

subsection \<open>The routes\<close>

datatype response = Json jsval | Status nat jsval | Uncaught error

definition post_session ::
  "string \<Rightarrow> jsval \<Rightarrow> string \<Rightarrow> bool \<Rightarrow> server \<Rightarrow> response \<times> server"
where
  "post_session PROJECT_DIR body sid spawned srv =
     (if nullish body then (Uncaught TypeError, srv)
      else
        (let prompt = field body ''prompt'';
             cwd = field body ''cwd''
         in if \<not> truthy prompt
            then (Status 400 (Obj [(''error'', Str ''prompt is required'')]), srv)
            else
              (case spawnAgent PROJECT_DIR prompt cwd sid spawned srv of
                 Inl e \<Rightarrow> (Uncaught e, srv)
               | Inr (new_id, srv') \<Rightarrow>
                   (Json (Obj [(''sessionId'', Str new_id)]), srv'))))"

definition get_sessions :: "server \<Rightarrow> response" where
  "get_sessions srv =
     Json (Arr (map (\<lambda>(sid, s). Obj [(''id'', Str sid), (''prompt'', s_prompt s),
                                     (''cwd'', Str (s_cwd s))])
                  (sessions srv)))"

definition delete_session :: "string \<Rightarrow> server \<Rightarrow> response \<times> server" where
  "delete_session sid srv =
     (case map_of (sessions srv) sid of
        None \<Rightarrow> (Status 404 (Obj [(''error'', Str ''session not found'')]), srv)
      | Some s \<Rightarrow>
          (Json (Obj [(''ok'', Bool True)]),
           update_proc (s_proc s) (\<lambda>p. p\<lparr>sigterm := sigterm p + 1\<rparr>) srv))"

subsection \<open>The event loop\<close>

text \<open>
  One input is one request or one event of a subprocess, handled to its end before the
  next (a single thread). A process emits \<open>data\<close> events until it emits \<open>close\<close>, which
  comes once, after its streams have ended: an event for a process that was never spawned
  or has closed does not occur, and \<open>deliver\<close> drops it.
\<close>

datatype input =
    PostSession jsval string bool
  | GetSessions
  | DeleteSession string
  | StdoutData nat bytes
  | StderrData nat bytes
  | Close nat "int option"

definition running :: "nat \<Rightarrow> server \<Rightarrow> bool" where
  "running pid srv = (pid < length (procs srv) \<and> \<not> closed (procs srv ! pid))"

definition deliver :: "nat \<Rightarrow> (server \<Rightarrow> server) \<Rightarrow> server \<Rightarrow> server" where
  "deliver pid callback srv = (if running pid srv then callback srv else srv)"

fun step :: "runtime \<Rightarrow> string \<Rightarrow> input \<Rightarrow> server \<Rightarrow> response option \<times> server" where
  "step rt PROJECT_DIR (PostSession body sid spawned) srv =
     (case post_session PROJECT_DIR body sid spawned srv of (r, srv') \<Rightarrow> (Some r, srv'))"
| "step rt PROJECT_DIR GetSessions srv = (Some (get_sessions srv), srv)"
| "step rt PROJECT_DIR (DeleteSession sid) srv =
     (case delete_session sid srv of (r, srv') \<Rightarrow> (Some r, srv'))"
| "step rt PROJECT_DIR (StdoutData pid chunk) srv =
     (None, deliver pid (on_stdout_data rt pid chunk) srv)"
| "step rt PROJECT_DIR (StderrData pid chunk) srv =
     (None, deliver pid (on_stderr_data rt pid chunk) srv)"
| "step rt PROJECT_DIR (Close pid code) srv =
     (None, deliver pid (\<lambda>s. update_proc pid (\<lambda>p. p\<lparr>closed := True\<rparr>) (on_close pid code s)) srv)"

fun run :: "runtime \<Rightarrow> string \<Rightarrow> input list \<Rightarrow> server \<Rightarrow> server" where
  "run rt PROJECT_DIR [] srv = srv"
| "run rt PROJECT_DIR (i # is) srv = run rt PROJECT_DIR is (snd (step rt PROJECT_DIR i srv))"

section \<open>One process in a run\<close>

text \<open>
  What the statements about the order of events are made with. A \<open>signal\<close> is what one
  process gives to its callbacks: a chunk of standard output, a chunk of standard error,
  or its close with the exit code. \<open>emitted rt PROJECT_DIR pid ins srv\<close> is the sequence
  of signals the event loop delivers to the callbacks of process \<open>pid\<close> while the inputs
  \<open>ins\<close> are handled from the state \<open>srv\<close>. \<open>session_run\<close> is what the three callbacks of
  one process broadcast for a sequence of signals, with the buffer and the map they
  leave. \<open>created_ids\<close> lists the session ids of the requests of a run that create a
  session, in order.
\<close>

datatype signal = Out bytes | Err bytes | Exit "int option"

fun is_exit :: "signal \<Rightarrow> bool" where
  "is_exit (Exit code) = True"
| "is_exit s = False"

definition signal_of :: "nat \<Rightarrow> input \<Rightarrow> server \<Rightarrow> signal list" where
  "signal_of pid i srv =
     (if running pid srv then
        (case i of
           StdoutData q chunk \<Rightarrow> if q = pid then [Out chunk] else []
         | StderrData q chunk \<Rightarrow> if q = pid then [Err chunk] else []
         | Close q code \<Rightarrow> if q = pid then [Exit code] else []
         | _ \<Rightarrow> [])
      else [])"

fun emitted :: "runtime \<Rightarrow> string \<Rightarrow> nat \<Rightarrow> input list \<Rightarrow> server \<Rightarrow> signal list" where
  "emitted rt PROJECT_DIR pid [] srv = []"
| "emitted rt PROJECT_DIR pid (i # is) srv =
     signal_of pid i srv @ emitted rt PROJECT_DIR pid is (snd (step rt PROJECT_DIR i srv))"

fun session_run ::
  "runtime \<Rightarrow> string \<Rightarrow> string \<Rightarrow> signal list \<Rightarrow> string \<Rightarrow> fileChanges \<Rightarrow>
     event list \<times> string \<times> fileChanges"
where
  "session_run rt sid workDir [] buf fc = ([], buf, fc)"
| "session_run rt sid workDir (Out chunk # rest) buf fc =
     (case decode_chunk buf (Buffer_toString rt chunk) of
        (lines, buf') \<Rightarrow>
          (case handle_lines rt sid workDir lines fc of
             (evs, fc') \<Rightarrow>
               (case session_run rt sid workDir rest buf' fc' of
                  (evs', state) \<Rightarrow> (evs @ evs', state))))"
| "session_run rt sid workDir (Err chunk # rest) buf fc =
     (case session_run rt sid workDir rest buf fc of
        (evs', state) \<Rightarrow> (stderr sid (Buffer_toString rt chunk) # evs', state))"
| "session_run rt sid workDir (Exit code # rest) buf fc =
     (case session_run rt sid workDir rest buf fc of
        (evs', state) \<Rightarrow> (session_end sid code # evs', state))"

text \<open>The text of the standard output among some signals.\<close>

fun stdout_text :: "runtime \<Rightarrow> signal list \<Rightarrow> string list" where
  "stdout_text rt [] = []"
| "stdout_text rt (Out chunk # rest) = Buffer_toString rt chunk # stdout_text rt rest"
| "stdout_text rt (s # rest) = stdout_text rt rest"

fun creates :: "string \<Rightarrow> input \<Rightarrow> bool" where
  "creates PROJECT_DIR (PostSession body sid spawned) =
     (\<not> nullish body \<and> truthy (field body ''prompt'') \<and> spawned \<and>
      (case or_else (field body ''cwd'') (Str PROJECT_DIR) of Str w \<Rightarrow> True | _ \<Rightarrow> False))"
| "creates PROJECT_DIR i = False"

fun created_ids :: "string \<Rightarrow> input list \<Rightarrow> string list" where
  "created_ids PROJECT_DIR [] = []"
| "created_ids PROJECT_DIR (PostSession body sid spawned # is) =
     (if creates PROJECT_DIR (PostSession body sid spawned)
      then sid # created_ids PROJECT_DIR is else created_ids PROJECT_DIR is)"
| "created_ids PROJECT_DIR (i # is) = created_ids PROJECT_DIR is"

text \<open>
  The state of process \<open>pid\<close> and the events of the log that bear its session id agree
  with the signals \<open>sigs\<close>: the log has \<open>session_start\<close> and then what \<open>session_run\<close>
  gives for \<open>sigs\<close> from the empty buffer and map, which leaves the buffer and map of the
  process; an exit is the last signal only, and the process is closed exactly then.
\<close>

definition trace_ok :: "runtime \<Rightarrow> signal list \<Rightarrow> server \<Rightarrow> nat \<Rightarrow> bool" where
  "trace_ok rt sigs srv pid =
     (let p = procs srv ! pid
      in (\<exists>evs. session_run rt (p_sessionId p) (p_workDir p) sigs [] [] =
                   (evs, buffer p, fileChanges p)
                \<and> filter (\<lambda>e. sessionId e = p_sessionId p) (log srv) =
                    session_start (p_sessionId p) (p_prompt p) (p_workDir p) # evs)
         \<and> (\<forall>s \<in> set (butlast sigs). \<not> is_exit s)
         \<and> (closed p \<longleftrightarrow> sigs \<noteq> [] \<and> is_exit (last sigs)))"

text \<open>
  An event made from a line of standard output of the session \<open>sid\<close>: it bears that id
  and is none of \<open>session_start\<close>, \<open>session_end\<close>, \<open>stderr\<close>.
\<close>

definition frame_event :: "string \<Rightarrow> event \<Rightarrow> bool" where
  "frame_event sid e =
     (sessionId e = sid \<and> event_type e \<noteq> ''session_start''
      \<and> event_type e \<noteq> ''session_end'' \<and> event_type e \<noteq> ''stderr'')"

section \<open>The invocations a frame records\<close>

text \<open>
  What the statements about the map are made with: the entry that a block of an assistant
  frame stands for when it is an invocation of Write or Edit (its \<open>id\<close>, its \<open>file_path\<close>
  and the action), the entries of the blocks of a frame, and those of a line.
\<close>

definition invocation_descriptor :: "jsval \<Rightarrow> (jsval \<times> change) option" where
  "invocation_descriptor block =
     (if field block ''type'' = Str ''tool_use'' \<and> \<not> nullish (field block ''input'') then
        (if field block ''name'' = Str ''Write'' then
           Some (field block ''id'',
                 \<lparr>filePath = field (field block ''input'') ''file_path'', action = ''write''\<rparr>)
         else if field block ''name'' = Str ''Edit'' then
           Some (field block ''id'',
                 \<lparr>filePath = field (field block ''input'') ''file_path'', action = ''edit''\<rparr>)
         else None)
      else None)"

definition frame_invocations :: "jsval \<Rightarrow> (jsval \<times> change) list" where
  "frame_invocations event =
     (if field event ''type'' = Str ''assistant'' then
        (case iterate (message_content event) of
           Inl e \<Rightarrow> []
         | Inr blocks \<Rightarrow> List.map_filter invocation_descriptor blocks)
      else [])"

definition line_invocations :: "runtime \<Rightarrow> string \<Rightarrow> (jsval \<times> change) list" where
  "line_invocations rt line =
     (if trim line = [] then []
      else (case JSON_parse rt line of
              None \<Rightarrow> []
            | Some event \<Rightarrow> frame_invocations event))"

section \<open>An example runtime\<close>

text \<open>
  The closed examples below need a runtime. This one agrees with the platform on the
  values the examples meet: \<open>JSON.parse\<close> on the listed lines (every other line used is
  not JSON), bytes below 0x80 as ASCII, lower case of ASCII letters. The examples meet no
  call of \<open>JSON.stringify\<close> and no string conversion of a number, array or object.
\<close>

definition write_line :: string where
  "write_line = ''{\"type\":\"assistant\",\"message\":{\"content\":[{\"type\":\"tool_use\",\"id\":\"x1\",\"name\":\"Write\",\"input\":{\"file_path\":\"/w/a.txt\",\"content\":\"hi\"}}]}}''"

definition write_block :: jsval where
  "write_block =
     Obj [(''type'', Str ''tool_use''), (''id'', Str ''x1''), (''name'', Str ''Write''),
          (''input'', Obj [(''file_path'', Str ''/w/a.txt''), (''content'', Str ''hi'')])]"

definition write_frame :: jsval where
  "write_frame =
     Obj [(''type'', Str ''assistant''), (''message'', Obj [(''content'', Arr [write_block])])]"

definition result_line :: string where
  "result_line = ''{\"type\":\"user\",\"message\":{\"content\":[{\"type\":\"tool_result\",\"tool_use_id\":\"x1\",\"content\":\"ok\"}]}}''"

definition result_block :: jsval where
  "result_block =
     Obj [(''type'', Str ''tool_result''), (''tool_use_id'', Str ''x1''),
          (''content'', Str ''ok'')]"

definition result_frame :: jsval where
  "result_frame =
     Obj [(''type'', Str ''user''), (''message'', Obj [(''content'', Arr [result_block])])]"

definition two_results_frame :: jsval where
  "two_results_frame =
     Obj [(''type'', Str ''user''),
          (''message'', Obj [(''content'', Arr [result_block, result_block])])]"

definition note_line :: string where
  "note_line = ''{\"type\":\"user\",\"message\":{\"content\":\"hello\"}}''"

definition note_frame :: jsval where
  "note_frame =
     Obj [(''type'', Str ''user''), (''message'', Obj [(''content'', Str ''hello'')])]"

definition example_runtime :: runtime where
  "example_runtime =
     \<lparr>JSON_parse = map_of [(write_line, write_frame), (result_line, result_frame),
                           (note_line, note_frame)],
      JSON_stringify = (\<lambda>v. Undefined),
      ToString = (\<lambda>v. Inl TypeError),
      toLowerCase = map (\<lambda>c. if (65::nat) \<le> of_char c \<and> (of_char c :: nat) \<le> 90
                                then char_of (of_char c + (32::nat)) else c),
      Buffer_toString = map (\<lambda>b. char_of (unat b))\<rparr>"

definition is_file_changed :: "event \<Rightarrow> bool" where
  "is_file_changed e = (case e of fe_file_changed s p a \<Rightarrow> True | _ \<Rightarrow> False)"

definition x1_written :: fileChanges where
  "x1_written = [(Str ''x1'', \<lparr>filePath = Str ''/w/a.txt'', action = ''write''\<rparr>)]"

text \<open>A server with one running session, whose process has given \<open>tail\<close> with no newline.\<close>

definition one_session :: server where
  "one_session =
     \<lparr>sessions = [(''s1'', \<lparr>s_proc = 0, s_prompt = Str ''hello'', s_cwd = ''/w''\<rparr>)],
      procs = [\<lparr>p_sessionId = ''s1'', p_prompt = Str ''hello'', p_workDir = ''/w'',
                buffer = ''tail'', fileChanges = [], closed = False, sigterm = 0\<rparr>],
      log = [session_start ''s1'' (Str ''hello'') ''/w'']\<rparr>"

definition utf8 :: "string \<Rightarrow> bytes" where
  "utf8 s = map (\<lambda>c. of_nat (of_char c)) s"

text \<open>Two sessions whose processes give output in turn, and close.\<close>

definition post1 :: input where
  "post1 = PostSession (Obj [(''prompt'', Str ''hello''), (''cwd'', Str ''/w'')]) ''s1'' True"

definition post2 :: input where
  "post2 = PostSession (Obj [(''prompt'', Str ''bye''), (''cwd'', Str ''/w'')]) ''s2'' True"

definition two_sessions :: "input list" where
  "two_sessions =
     [post1, post2,
      StdoutData 0 (utf8 (write_line @ [newline])),
      StdoutData 1 (utf8 (''not json'' @ [newline])),
      StderrData 0 (utf8 ''warn''),
      StdoutData 0 (utf8 (result_line @ [newline])),
      Close 1 (Some 1),
      Close 0 None]"

definition two_sessions_end :: server where
  "two_sessions_end =
     \<lparr>sessions = [],
      procs = [\<lparr>p_sessionId = ''s1'', p_prompt = Str ''hello'', p_workDir = ''/w'',
                buffer = [], fileChanges = x1_written, closed = True, sigterm = 0\<rparr>,
               \<lparr>p_sessionId = ''s2'', p_prompt = Str ''bye'', p_workDir = ''/w'',
                buffer = [], fileChanges = [], closed = True, sigterm = 0\<rparr>],
      log = [session_start ''s1'' (Str ''hello'') ''/w'',
             session_start ''s2'' (Str ''bye'') ''/w'',
             agent_event ''s1'' write_frame,
             fe_tool_call ''s1'' (Str ''x1'')
               [(''tool'', Str ''write''), (''filePath'', Str ''/w/a.txt''),
                (''content'', Str ''hi''), (''description'', Str ''Create a.txt'')],
             raw_output ''s2'' ''not json'',
             stderr ''s1'' ''warn'',
             agent_event ''s1'' result_frame,
             fe_tool_result ''s1'' (Str ''x1'') (Str ''ok''),
             fe_file_changed ''s1'' (Str ''/w/a.txt'') ''write'',
             session_end ''s2'' (Some 1),
             session_end ''s1'' None]\<rparr>"

section \<open>The frame decoder\<close>

lemma split_nl_nonempty: "split_nl s \<noteq> []"
  by (induction s) (auto split: list.splits)

lemma split_nl_join: "restore (butlast (split_nl s)) @ last (split_nl s) = s"
proof (induction s)
  case Nil
  show ?case by (simp add: restore_def)
next
  case (Cons c cs)
  obtain l ls where sp: "split_nl cs = l # ls"
    using split_nl_nonempty [of cs] by (cases "split_nl cs") auto
  show ?case
  proof (cases "c = newline")
    case True
    with Cons sp show ?thesis by (simp add: restore_def)
  next
    case False
    with Cons sp show ?thesis by (cases ls) (auto simp: restore_def)
  qed
qed

lemma split_nl_no_newline: "l \<in> set (split_nl s) \<Longrightarrow> newline \<notin> set l"
proof (induction s arbitrary: l)
  case Nil
  then show ?case by simp
next
  case (Cons c cs)
  obtain k ks where sp: "split_nl cs = k # ks"
    using split_nl_nonempty [of cs] by (cases "split_nl cs") auto
  show ?case
  proof (cases "c = newline")
    case True
    with Cons show ?thesis by auto
  next
    case False
    with Cons.prems sp have "l = c # k \<or> l \<in> set ks" by auto
    then show ?thesis
      using Cons.IH False sp by auto
  qed
qed

lemma split_nl_append:
  "split_nl (a @ b) = butlast (split_nl a) @ split_nl (last (split_nl a) @ b)"
proof (induction a)
  case Nil
  show ?case by simp
next
  case (Cons c cs)
  obtain k ks where sp: "split_nl cs = k # ks"
    using split_nl_nonempty [of cs] by (cases "split_nl cs") auto
  obtain m ms where sq: "split_nl (last (split_nl cs) @ b) = m # ms"
    using split_nl_nonempty [of "last (split_nl cs) @ b"]
    by (cases "split_nl (last (split_nl cs) @ b)") auto
  show ?case
  proof (cases "c = newline")
    case True
    with Cons sp show ?thesis by simp
  next
    case False
    show ?thesis
    proof (cases ks)
      case Nil
      with False Cons sp sq show ?thesis by simp
    next
      case (Cons k' ks')
      with False Cons.IH sp sq show ?thesis by simp
    qed
  qed
qed

lemma split_nl_plain: "newline \<notin> set s \<Longrightarrow> split_nl s = [s]"
  by (induction s) auto

lemma last_split_nl_no_newline: "newline \<notin> set (last (split_nl s))"
  using split_nl_no_newline [of "last (split_nl s)" s] split_nl_nonempty [of s]
  by simp

lemma decode_all_split:
  "newline \<notin> set buf \<Longrightarrow>
   decode_all buf ts =
     (butlast (split_nl (buf @ concat ts)), last (split_nl (buf @ concat ts)))"
proof (induction ts arbitrary: buf)
  case Nil
  then show ?case by (simp add: split_nl_plain)
next
  case (Cons t ts)
  let ?b = "last (split_nl (buf @ t))"
  have ap: "split_nl ((buf @ t) @ concat ts) =
          butlast (split_nl (buf @ t)) @ split_nl (?b @ concat ts)"
    by (rule split_nl_append)
  have ne: "split_nl (?b @ concat ts) \<noteq> []" by (rule split_nl_nonempty)
  have nb: "newline \<notin> set ?b" by (rule last_split_nl_no_newline)
  show ?case
    using Cons.IH [OF nb] ap ne
    by (simp add: decode_chunk_def Let_def butlast_append)
qed

lemma decode_all_append:
  "decode_all buf (ts @ us) =
     (case decode_all buf ts of
        (lines, buf') \<Rightarrow>
          (case decode_all buf' us of (lines', rest) \<Rightarrow> (lines @ lines', rest)))"
  by (induction ts arbitrary: buf) (auto split: prod.splits)

lemma decode_all_take_prefix:
  "prefix (fst (decode_all buf (take n ts))) (fst (decode_all buf ts))"
proof -
  have "decode_all buf ts = decode_all buf (take n ts @ drop n ts)" by simp
  also have "\<dots> = (case decode_all buf (take n ts) of
        (lines, buf') \<Rightarrow>
          (case decode_all buf' (drop n ts) of
             (lines', rest) \<Rightarrow> (lines @ lines', rest)))"
    by (rule decode_all_append)
  finally show ?thesis by (auto split: prod.splits)
qed

lemma decode_all_roundtrip:
  "restore (fst (decode_all [] ts)) @ snd (decode_all [] ts) = concat ts"
  using decode_all_split [of "[]" ts] by (simp add: split_nl_join)

text \<open>
  The decoder on the text of the chunks; it is the same three statements in both
  servers. Whatever the chunk boundaries, after the decoder of a session has been given the
  chunks \<open>chunks\<close> (each turned into text by \<open>chunk.toString()\<close>), the lines yielded with
  their newlines put back, followed by the buffer, are the text of the chunks joined;
  the lines are the lines of the joined text, in its order, the buffer its last,
  unterminated segment; no line and no buffer holds a newline; and at every moment
  (after the first \<open>n\<close> chunks) the lines yielded so far are the first ones of the final
  sequence and, with their newlines, a prefix of the text received so far, so each line's
  newline has arrived when the line is yielded.
\<close>

theorem decoder_roundtrip:
  assumes "ts = map (Buffer_toString rt) chunks"
    and "decode_all [] ts = (frames, rest)"
  shows "restore frames @ rest = concat ts
       \<and> frames = butlast (split_nl (concat ts))
       \<and> rest = last (split_nl (concat ts))
       \<and> (\<forall>f \<in> set frames. newline \<notin> set f)
       \<and> newline \<notin> set rest
       \<and> (\<forall>n. prefix (fst (decode_all [] (take n ts))) frames
              \<and> prefix (restore (fst (decode_all [] (take n ts)))) (concat (take n ts)))"
proof -
  have sp: "decode_all [] ts = (butlast (split_nl (concat ts)), last (split_nl (concat ts)))"
    using decode_all_split [of "[]" ts] by simp
  with assms(2) have fr: "frames = butlast (split_nl (concat ts))"
    and re: "rest = last (split_nl (concat ts))" by simp_all
  have rj: "restore frames @ rest = concat ts"
    using decode_all_roundtrip [of ts] assms(2) by simp
  have nf: "\<forall>f \<in> set frames. newline \<notin> set f"
    using fr split_nl_no_newline [of _ "concat ts"] by (auto dest: in_set_butlastD)
  have nr: "newline \<notin> set rest"
    using re last_split_nl_no_newline by simp
  have pf: "prefix (fst (decode_all [] (take n ts))) frames" for n
    using decode_all_take_prefix [of "[]" n ts] assms(2) by simp
  have pr: "prefix (restore (fst (decode_all [] (take n ts)))) (concat (take n ts))" for n
    using decode_all_roundtrip [of "take n ts"] by (metis prefixI)
  show ?thesis using fr re rj nf nr pf pr by blast
qed

theorem decoder_roundtrip_witness:
  "decode_all [] (map (Buffer_toString example_runtime) [utf8 ''a\<newline>b'', utf8 ''c\<newline>d''])
     = ([''a'', ''bc''], ''d'')
   \<and> restore [''a'', ''bc''] @ ''d'' = ''a\<newline>bc\<newline>d''"
proof -
  have tx: "map (Buffer_toString example_runtime) [utf8 ''a\<newline>b'', utf8 ''c\<newline>d'']
              = [''a\<newline>b'', ''c\<newline>d'']"
    by (simp add: example_runtime_def utf8_def) code_simp
  have de: "decode_all [] [''a\<newline>b'', ''c\<newline>d''] = ([''a'', ''bc''], ''d'')"
    by (simp add: decode_chunk_def newline_def)
  note th = decoder_roundtrip [OF tx [symmetric] de]
  from th have "restore [''a'', ''bc''] @ ''d'' = concat [''a\<newline>b'', ''c\<newline>d'']"
    by (rule conjunct1)
  then show ?thesis unfolding tx using de by simp
qed



section \<open>The translation layer: results\<close>

lemma field_nullish: "nullish v \<Longrightarrow> field v k = Undefined"
  by (cases v) auto

lemma field_Str_not_nullish: "field v k = Str s \<Longrightarrow> \<not> nullish v"
  by (cases v) auto

lemma translateEvent_user:
  "field event ''type'' = Str ''user'' \<Longrightarrow>
   translateEvent rt sid event workDir fc =
     (if truthy (message_content event) then
        (case message_content event of
           Arr blocks \<Rightarrow>
             (case user_blocks rt sid blocks fc of (evs, thrown) \<Rightarrow> (evs, fc, thrown))
         | _ \<Rightarrow> ([], fc, None))
      else ([], fc, None))"
  by (simp add: translateEvent_def field_Str_not_nullish)

lemma trim_empty_iff: "trim s = [] \<longleftrightarrow> (\<forall>c \<in> set s. isWhiteSpace c)"
proof -
  have "trim s = [] \<longleftrightarrow> dropWhile isWhiteSpace (rev (dropWhile isWhiteSpace s)) = []"
    by (simp add: trim_def)
  also have "\<dots> \<longleftrightarrow> (\<forall>c \<in> set (dropWhile isWhiteSpace s). isWhiteSpace c)"
    by (simp add: dropWhile_eq_Nil_conv)
  also have "\<dots> \<longleftrightarrow> (\<forall>c \<in> set s. isWhiteSpace c)"
  proof
    assume a: "\<forall>c \<in> set (dropWhile isWhiteSpace s). isWhiteSpace c"
    show "\<forall>c \<in> set s. isWhiteSpace c"
    proof (cases "dropWhile isWhiteSpace s")
      case Nil
      then show ?thesis by (simp add: dropWhile_eq_Nil_conv)
    next
      case (Cons x xs)
      then have "\<not> isWhiteSpace x" using hd_dropWhile [of isWhiteSpace s] by auto
      with a Cons show ?thesis by auto
    qed
  next
    assume "\<forall>c \<in> set s. isWhiteSpace c"
    then show "\<forall>c \<in> set (dropWhile isWhiteSpace s). isWhiteSpace c"
      by (auto dest: set_dropWhileD)
  qed
  finally show ?thesis .
qed

lemma parse_write_line: "JSON_parse example_runtime write_line = Some write_frame"
  by (simp add: example_runtime_def)

lemma parse_result_line: "JSON_parse example_runtime result_line = Some result_frame"
  by (simp add: example_runtime_def write_line_def result_line_def)

lemma parse_note_line: "JSON_parse example_runtime note_line = Some note_frame"
  by (simp add: example_runtime_def write_line_def result_line_def note_line_def)

lemma example_lines_not_blank:
  "trim write_line \<noteq> []" "trim result_line \<noteq> []" "trim note_line \<noteq> []"
  by (simp_all add: trim_empty_iff write_line_def result_line_def note_line_def isWhiteSpace_def)

lemma translate_write_frame:
  "translateEvent example_runtime sid write_frame ''/w'' [] =
     ([fe_tool_call sid (Str ''x1'')
         [(''tool'', Str ''write''), (''filePath'', Str ''/w/a.txt''),
          (''content'', Str ''hi''), (''description'', Str ''Create a.txt'')]],
      x1_written, None)"
  by (simp add: translateEvent_def write_frame_def write_block_def message_content_def
      translateToolUse_def path_text_def relativePath_def template_def x1_written_def)

lemma translate_result_frame:
  "translateEvent example_runtime sid result_frame ''/w'' x1_written =
     ([fe_tool_result sid (Str ''x1'') (Str ''ok''),
       fe_file_changed sid (Str ''/w/a.txt'') ''write''], x1_written, None)"
  by (simp add: translateEvent_def result_frame_def result_block_def message_content_def
      result_text_def x1_written_def same_key_def)

lemma handle_write_line:
  "handle_line example_runtime sid ''/w'' write_line [] =
     ([agent_event sid write_frame,
       fe_tool_call sid (Str ''x1'')
         [(''tool'', Str ''write''), (''filePath'', Str ''/w/a.txt''),
          (''content'', Str ''hi''), (''description'', Str ''Create a.txt'')]],
      x1_written)"
  by (simp add: handle_line_def example_lines_not_blank parse_write_line translate_write_frame)

lemma handle_result_line:
  "handle_line example_runtime sid ''/w'' result_line x1_written =
     ([agent_event sid result_frame,
       fe_tool_result sid (Str ''x1'') (Str ''ok''),
       fe_file_changed sid (Str ''/w/a.txt'') ''write''],
      x1_written)"
  by (simp add: handle_line_def example_lines_not_blank parse_result_line translate_result_frame)

text \<open>
  The lines of a Write invocation \<open>x1\<close> and of its result, the result given twice: each
  result line gives a \<open>fe_file_changed\<close> event, and the descriptor of \<open>x1\<close> is still in the
  map at the end.
\<close>

theorem descriptor_kept_counterexample:
  "filter is_file_changed
     (fst (handle_lines example_runtime ''s'' ''/w'' [write_line, result_line, result_line] []))
     = [fe_file_changed ''s'' (Str ''/w/a.txt'') ''write'',
        fe_file_changed ''s'' (Str ''/w/a.txt'') ''write'']
   \<and> map_get
       (snd (handle_lines example_runtime ''s'' ''/w'' [write_line, result_line, result_line] []))
       (Str ''x1'')
     = Some \<lparr>filePath = Str ''/w/a.txt'', action = ''write''\<rparr>"
  by (simp add: handle_write_line handle_result_line is_file_changed_def)
     (simp add: x1_written_def same_key_def)


lemma user_blocks_general:
  "user_blocks rt sid blocks fc =
     (concat (map (\<lambda>block.
                if field block ''type'' = Str ''tool_result'' then
                  fe_tool_result sid (field block ''tool_use_id'') (result_text rt block) #
                  (case map_get fc (field block ''tool_use_id'') of
                     None \<Rightarrow> []
                   | Some d \<Rightarrow> [fe_file_changed sid (filePath d) (action d)])
                else [])
              (takeWhile (\<lambda>b. \<not> nullish b) blocks)),
      if \<exists>b \<in> set blocks. nullish b then Some TypeError else None)"
  by (induction blocks) (auto simp: Let_def split: option.splits)

text \<open>
  C1 (as the code has it). The translation of a frame of kind \<open>user\<close> leaves the map
  \<open>fileChanges\<close> as it was: no descriptor is removed. When the content of the frame is an
  array of blocks, the loop takes them in order up to the first \<open>null\<close> block (where it
  throws), and for each tool-result block it emits the \<open>fe_tool_result\<close> event and then,
  when the invocation identifier of the block has a descriptor in the map, exactly one
  \<open>fe_file_changed\<close> event with the path and action of the descriptor; other blocks emit
  nothing. The same frame translated again, on the map the first translation left, gives
  the same events again.
\<close>

theorem tool_result_file_changed:
  assumes ty: "field event ''type'' = Str ''user''"
  shows "fst (snd (translateEvent rt sid event workDir fc)) = fc
     \<and> (\<forall>blocks.
           message_content event = Arr blocks \<longrightarrow>
           translateEvent rt sid event workDir fc =
             (concat (map (\<lambda>block.
                if field block ''type'' = Str ''tool_result'' then
                  fe_tool_result sid (field block ''tool_use_id'') (result_text rt block) #
                  (case map_get fc (field block ''tool_use_id'') of
                     None \<Rightarrow> []
                   | Some d \<Rightarrow> [fe_file_changed sid (filePath d) (action d)])
                else [])
              (takeWhile (\<lambda>b. \<not> nullish b) blocks)),
              fc,
              if \<exists>b \<in> set blocks. nullish b then Some TypeError else None)
           \<and> translateEvent rt sid event workDir
                (fst (snd (translateEvent rt sid event workDir fc))) =
             translateEvent rt sid event workDir fc)
     \<and> (\<forall>block d.
           message_content event = Arr [block]
           \<and> field block ''type'' = Str ''tool_result''
           \<and> map_get fc (field block ''tool_use_id'') = Some d \<longrightarrow>
           translateEvent rt sid event workDir fc =
             ([fe_tool_result sid (field block ''tool_use_id'') (result_text rt block),
               fe_file_changed sid (filePath d) (action d)], fc, None)
           \<and> translateEvent rt sid event workDir
                (fst (snd (translateEvent rt sid event workDir fc))) =
             ([fe_tool_result sid (field block ''tool_use_id'') (result_text rt block),
               fe_file_changed sid (filePath d) (action d)], fc, None))"
proof -
  have un: "fst (snd (translateEvent rt sid event workDir fc)) = fc"
    by (simp add: translateEvent_user [OF ty] split: jsval.splits prod.splits)
  have gen: "translateEvent rt sid event workDir fc =
             (concat (map (\<lambda>block.
                if field block ''type'' = Str ''tool_result'' then
                  fe_tool_result sid (field block ''tool_use_id'') (result_text rt block) #
                  (case map_get fc (field block ''tool_use_id'') of
                     None \<Rightarrow> []
                   | Some d \<Rightarrow> [fe_file_changed sid (filePath d) (action d)])
                else [])
              (takeWhile (\<lambda>b. \<not> nullish b) blocks)),
              fc,
              if \<exists>b \<in> set blocks. nullish b then Some TypeError else None)"
    if "message_content event = Arr blocks" for blocks
    using that by (simp add: translateEvent_user [OF ty] user_blocks_general)
  have one: "translateEvent rt sid event workDir fc =
             ([fe_tool_result sid (field block ''tool_use_id'') (result_text rt block),
               fe_file_changed sid (filePath d) (action d)], fc, None)"
    if "message_content event = Arr [block]"
      and "field block ''type'' = Str ''tool_result''"
      and "map_get fc (field block ''tool_use_id'') = Some d" for block d
    using that by (simp add: translateEvent_user [OF ty] field_Str_not_nullish)
  show ?thesis using un gen one by simp
qed

theorem tool_result_file_changed_witness:
  "field two_results_frame ''type'' = Str ''user''
   \<and> message_content two_results_frame = Arr [result_block, result_block]
   \<and> map_get x1_written (field result_block ''tool_use_id'')
       = Some \<lparr>filePath = Str ''/w/a.txt'', action = ''write''\<rparr>
   \<and> translateEvent example_runtime ''s'' two_results_frame ''/w'' x1_written =
       ([fe_tool_result ''s'' (Str ''x1'') (Str ''ok''),
         fe_file_changed ''s'' (Str ''/w/a.txt'') ''write'',
         fe_tool_result ''s'' (Str ''x1'') (Str ''ok''),
         fe_file_changed ''s'' (Str ''/w/a.txt'') ''write''], x1_written, None)"
proof -
  let ?d = "\<lparr>filePath = Str ''/w/a.txt'', action = ''write''\<rparr>"
  have ty: "field two_results_frame ''type'' = Str ''user''"
    by (simp add: two_results_frame_def)
  have mc: "message_content two_results_frame = Arr [result_block, result_block]"
    by (simp add: two_results_frame_def message_content_def)
  have bt: "field result_block ''type'' = Str ''tool_result''"
    and id: "field result_block ''tool_use_id'' = Str ''x1''"
    and nn: "\<not> nullish result_block"
    and rx: "result_text example_runtime result_block = Str ''ok''"
    by (simp_all add: result_block_def result_text_def)
  have pd: "map_get x1_written (Str ''x1'') = Some ?d"
    by (simp add: x1_written_def same_key_def)
  note th = tool_result_file_changed [OF ty, of example_runtime "''s''" "''/w''" x1_written]
  from th mc have "translateEvent example_runtime ''s'' two_results_frame ''/w'' x1_written =
             (concat (map (\<lambda>block.
                if field block ''type'' = Str ''tool_result'' then
                  fe_tool_result ''s'' (field block ''tool_use_id'')
                    (result_text example_runtime block) #
                  (case map_get x1_written (field block ''tool_use_id'') of
                     None \<Rightarrow> []
                   | Some d \<Rightarrow> [fe_file_changed ''s'' (filePath d) (action d)])
                else [])
              (takeWhile (\<lambda>b. \<not> nullish b) [result_block, result_block])),
              x1_written,
              if \<exists>b \<in> set [result_block, result_block]. nullish b
              then Some TypeError else None)"
    by blast
  then show ?thesis using ty mc by (simp add: bt id nn rx pd)
qed


lemma map_get_map_set: "primitive k \<Longrightarrow> map_get (map_set fc k c) k = Some c"
  by (induction fc) (auto simp: same_key_def)

lemma relativePath_under:
  "workDir \<noteq> [] \<Longrightarrow> relativePath (Str (workDir @ ''/'' @ rest)) workDir = Inr (Str rest)"
  by (simp add: relativePath_def)

lemma relativePath_outside:
  "workDir \<noteq> [] \<Longrightarrow> \<not> prefix workDir p \<Longrightarrow> relativePath (Str p) workDir = Inr (Str p)"
  by (simp add: relativePath_def or_else_def)

lemma path_text_Str:
  "workDir \<noteq> [] \<Longrightarrow>
   path_text rt (Str p) workDir =
     Inr (if p \<noteq> [] \<and> prefix workDir p then drop (length workDir + 1) p else p)"
  by (simp add: path_text_def relativePath_def or_else_def template_def)

text \<open>
  The scenario of the specification: a Write of \<open>/w/a.txt\<close> in a session whose working
  directory is \<open>/w\<close>, then its result. The \<open>filePath\<close> of both events is \<open>/w/a.txt\<close>; only
  the description has \<open>a.txt\<close>.
\<close>

theorem scenario_filePath_counterexample:
  "fst (handle_lines example_runtime ''s'' ''/w'' [write_line, result_line] []) =
     [agent_event ''s'' write_frame,
      fe_tool_call ''s'' (Str ''x1'')
        [(''tool'', Str ''write''), (''filePath'', Str ''/w/a.txt''),
         (''content'', Str ''hi''), (''description'', Str ''Create a.txt'')],
      agent_event ''s'' result_frame,
      fe_tool_result ''s'' (Str ''x1'') (Str ''ok''),
      fe_file_changed ''s'' (Str ''/w/a.txt'') ''write'']
   \<and> fe_file_changed ''s'' (Str ''a.txt'') ''write''
       \<notin> set (fst (handle_lines example_runtime ''s'' ''/w'' [write_line, result_line] []))"
  by (simp add: handle_write_line handle_result_line)

text \<open>
  C2 (as the code has it). For an invocation of Write, Edit or Read whose \<open>file_path\<close> is
  a string, in a session with a working directory: the \<open>filePath\<close> field of the
  \<open>fe_tool_call\<close> event is the \<open>file_path\<close> unchanged, whether or not it lies under the
  working directory; Write and Edit record it unchanged in the map, and the
  \<open>fe_file_changed\<close> event of a later result of that invocation carries it unchanged. Only
  the description of the \<open>fe_tool_call\<close> is made relative: for the path \<open>workDir/rest\<close> it
  names \<open>rest\<close>, and a path that does not start with the working directory is named
  unchanged.
\<close>

theorem filePath_passed_through:
  assumes nm: "field block ''name'' = Str n"
    and tl: "n = ''Write'' \<or> n = ''Edit'' \<or> n = ''Read''"
    and inp: "\<not> nullish (field block ''input'')"
    and fp: "field (field block ''input'') ''file_path'' = Str p"
    and wd: "workDir \<noteq> []"
    and tr: "translateToolUse rt block workDir fc = (fc', r)"
  shows "(\<exists>translated. r = Inr translated
            \<and> map_of translated ''filePath'' = Some (Str p)
            \<and> (\<forall>rest. p = workDir @ ''/'' @ rest \<longrightarrow>
                  map_of translated ''description'' =
                    Some (Str ((if n = ''Write'' then ''Create '' else n @ '' '') @ rest)))
            \<and> (\<not> prefix workDir p \<longrightarrow>
                  map_of translated ''description'' =
                    Some (Str ((if n = ''Write'' then ''Create '' else n @ '' '') @ p))))
       \<and> (n \<noteq> ''Read'' \<longrightarrow>
            fc' = map_set fc (field block ''id'')
                    \<lparr>filePath = Str p, action = (if n = ''Write'' then ''write'' else ''edit'')\<rparr>
            \<and> (\<forall>result. primitive (field block ''id'')
                   \<and> field result ''type'' = Str ''tool_result''
                   \<and> field result ''tool_use_id'' = field block ''id'' \<longrightarrow>
                   user_blocks rt sid [result] fc' =
                     ([fe_tool_result sid (field block ''id'') (result_text rt result),
                       fe_file_changed sid (Str p)
                         (if n = ''Write'' then ''write'' else ''edit'')], None)))"
proof -
  from tl show ?thesis
  proof (elim disjE)
    assume n: "n = ''Write''"
    with nm inp fp wd tr show ?thesis
      by (auto simp: translateToolUse_def Let_def path_text_Str map_get_map_set
          field_Str_not_nullish)
  next
    assume n: "n = ''Edit''"
    with nm inp fp wd tr show ?thesis
      by (auto simp: translateToolUse_def Let_def path_text_Str map_get_map_set
          field_Str_not_nullish)
  next
    assume n: "n = ''Read''"
    with nm inp fp wd tr show ?thesis
      by (auto simp: translateToolUse_def Let_def path_text_Str)
  qed
qed


theorem filePath_passed_through_witness:
  "field write_block ''name'' = Str ''Write''
   \<and> \<not> nullish (field write_block ''input'')
   \<and> field (field write_block ''input'') ''file_path'' = Str ''/w/a.txt''
   \<and> translateToolUse example_runtime write_block ''/w'' [] =
       (x1_written,
        Inr [(''tool'', Str ''write''), (''filePath'', Str ''/w/a.txt''),
             (''content'', Str ''hi''), (''description'', Str ''Create a.txt'')])
   \<and> user_blocks example_runtime ''s'' [result_block] x1_written =
       ([fe_tool_result ''s'' (Str ''x1'') (Str ''ok''),
         fe_file_changed ''s'' (Str ''/w/a.txt'') ''write''], None)"
proof -
  let ?tr = "[(''tool'', Str ''write''), (''filePath'', Str ''/w/a.txt''),
             (''content'', Str ''hi''), (''description'', Str ''Create a.txt'')]"
  have nm: "field write_block ''name'' = Str ''Write''"
    by (simp add: write_block_def)
  have inp: "\<not> nullish (field write_block ''input'')"
    by (simp add: write_block_def)
  have fp: "field (field write_block ''input'') ''file_path'' = Str ''/w/a.txt''"
    by (simp add: write_block_def)
  have wd: "''/w'' \<noteq> []" by simp
  have tr: "translateToolUse example_runtime write_block ''/w'' [] = (x1_written, Inr ?tr)"
    by (simp add: translateToolUse_def write_block_def path_text_def relativePath_def
        template_def x1_written_def)
  have id: "field write_block ''id'' = Str ''x1''"
    by (simp add: write_block_def)
  have rs: "primitive (field write_block ''id'')
            \<and> field result_block ''type'' = Str ''tool_result''
            \<and> field result_block ''tool_use_id'' = field write_block ''id''"
    by (simp add: write_block_def result_block_def)
  note th = filePath_passed_through [OF nm _ inp fp wd tr, of "''s''"]
  from th rs have "user_blocks example_runtime ''s'' [result_block] x1_written =
       ([fe_tool_result ''s'' (field write_block ''id'')
           (result_text example_runtime result_block),
         fe_file_changed ''s'' (Str ''/w/a.txt'') (if ''Write'' = ''Write'' then ''write'' else ''edit'')],
        None)"
    by simp
  then show ?thesis using nm inp fp tr id by (simp add: result_text_def result_block_def)
qed


section \<open>The handler of lines: results\<close>

lemma handle_lines_append:
  "handle_lines rt sid workDir (xs @ ys) fc =
     (case handle_lines rt sid workDir xs fc of
        (evs, fc1) \<Rightarrow>
          (case handle_lines rt sid workDir ys fc1 of
             (evs', fc2) \<Rightarrow> (evs @ evs', fc2)))"
  by (induction xs arbitrary: fc) (auto split: prod.splits)

text \<open>
  A line of two spaces is not JSON, and it gives no event at all: the guard
  \<open>if (!line.trim()) continue\<close> skips it before \<open>JSON.parse\<close> is tried.
\<close>

theorem blank_line_counterexample:
  "JSON_parse example_runtime ''  '' = None
   \<and> handle_lines example_runtime ''s'' ''/w'' [''  ''] [] = ([], [])
   \<and> monitor_handle_line example_runtime ''s'' ''  '' = []"
  by (simp add: example_runtime_def write_line_def result_line_def note_line_def
      handle_line_def monitor_handle_line_def trim_empty_iff isWhiteSpace_def)

text \<open>
  C4 (as the code has it). For a decoded line that fails to parse, in both servers:
  when it has a character that is not white space, exactly one \<open>raw_output\<close> event with
  the line verbatim is broadcast for it, and the map is left as it was; when it is empty
  or all white space, it is skipped with no event. In both cases the lines after it are
  handled as if it had not been there: a malformed line never prevents the translation
  of the lines that follow.
\<close>

theorem unparseable_line_raw_output:
  assumes "JSON_parse rt line = None"
  shows "(trim line \<noteq> [] \<longrightarrow>
            handle_line rt sid workDir line fc = ([raw_output sid line], fc)
            \<and> monitor_handle_line rt sid line = [raw_output sid line])
       \<and> (trim line = [] \<longrightarrow>
            handle_line rt sid workDir line fc = ([], fc)
            \<and> monitor_handle_line rt sid line = [])
       \<and> handle_lines rt sid workDir (before @ line # after) fc =
           (case handle_lines rt sid workDir before fc of
              (evs, fc1) \<Rightarrow>
                (case handle_lines rt sid workDir after fc1 of
                   (evs', fc2) \<Rightarrow>
                     (evs @ (if trim line = [] then [] else [raw_output sid line]) @ evs',
                      fc2)))"
proof -
  have one: "handle_line rt sid workDir line fc' =
               (if trim line = [] then [] else [raw_output sid line], fc')" for fc'
    using assms by (simp add: handle_line_def)
  have "handle_lines rt sid workDir (before @ line # after) fc =
           (case handle_lines rt sid workDir before fc of
              (evs, fc1) \<Rightarrow>
                (case handle_lines rt sid workDir after fc1 of
                   (evs', fc2) \<Rightarrow>
                     (evs @ (if trim line = [] then [] else [raw_output sid line]) @ evs',
                      fc2)))"
    by (simp add: handle_lines_append one split: prod.splits)
  then show ?thesis using one assms by (simp add: monitor_handle_line_def)
qed

theorem unparseable_line_raw_output_witness:
  "JSON_parse example_runtime ''not json'' = None
   \<and> trim ''not json'' \<noteq> []
   \<and> handle_lines example_runtime ''s'' ''/w'' [write_line, ''not json'', result_line] [] =
       ([agent_event ''s'' write_frame,
         fe_tool_call ''s'' (Str ''x1'')
           [(''tool'', Str ''write''), (''filePath'', Str ''/w/a.txt''),
            (''content'', Str ''hi''), (''description'', Str ''Create a.txt'')],
         raw_output ''s'' ''not json'',
         agent_event ''s'' result_frame,
         fe_tool_result ''s'' (Str ''x1'') (Str ''ok''),
         fe_file_changed ''s'' (Str ''/w/a.txt'') ''write''],
        x1_written)"
proof -
  have pa: "JSON_parse example_runtime ''not json'' = None"
    by (simp add: example_runtime_def write_line_def result_line_def note_line_def)
  have nb: "trim ''not json'' \<noteq> []"
    by (simp add: trim_empty_iff isWhiteSpace_def)
  note th = unparseable_line_raw_output [OF pa, of "''s''" "''/w''" "[]" "[write_line]"
      "[result_line]"]
  from th have "handle_lines example_runtime ''s'' ''/w''
                  ([write_line] @ ''not json'' # [result_line]) [] =
           (case handle_lines example_runtime ''s'' ''/w'' [write_line] [] of
              (evs, fc1) \<Rightarrow>
                (case handle_lines example_runtime ''s'' ''/w'' [result_line] fc1 of
                   (evs', fc2) \<Rightarrow>
                     (evs @ (if trim ''not json'' = [] then []
                             else [raw_output ''s'' ''not json'']) @ evs',
                      fc2)))"
    by blast
  then show ?thesis
    using pa nb by (simp add: handle_write_line handle_result_line)
qed

text \<open>
  C9. For a parsed frame of kind \<open>user\<close> whose message content is not an array (a bare
  string, a number, an object, or no content at all), the translator emits no event,
  throws nothing and leaves the map unchanged; for its line, only the \<open>agent_event\<close>
  passthrough is broadcast.
\<close>

theorem user_content_not_array:
  assumes "field event ''type'' = Str ''user''"
    and "\<forall>blocks. message_content event \<noteq> Arr blocks"
  shows "translateEvent rt sid event workDir fc = ([], fc, None)
       \<and> (\<forall>line. trim line \<noteq> [] \<and> JSON_parse rt line = Some event \<longrightarrow>
             handle_line rt sid workDir line fc = ([agent_event sid event], fc))"
proof -
  have tr: "translateEvent rt sid event workDir fc = ([], fc, None)"
    using assms(2)
    by (simp add: translateEvent_user [OF assms(1)] split: jsval.splits)
  then show ?thesis by (simp add: handle_line_def)
qed

theorem user_content_not_array_witness:
  "field note_frame ''type'' = Str ''user''
   \<and> message_content note_frame = Str ''hello''
   \<and> trim note_line \<noteq> []
   \<and> JSON_parse example_runtime note_line = Some note_frame
   \<and> translateEvent example_runtime ''s'' note_frame ''/w'' x1_written = ([], x1_written, None)
   \<and> handle_line example_runtime ''s'' ''/w'' note_line x1_written
       = ([agent_event ''s'' note_frame], x1_written)"
proof -
  have ty: "field note_frame ''type'' = Str ''user''"
    by (simp add: note_frame_def)
  have mc: "message_content note_frame = Str ''hello''"
    by (simp add: note_frame_def message_content_def)
  then have na: "\<forall>blocks. message_content note_frame \<noteq> Arr blocks" by simp
  note th = user_content_not_array [OF ty na, of example_runtime "''s''" "''/w''" x1_written]
  from th show ?thesis
    using ty mc example_lines_not_blank(3) parse_note_line by blast
qed


section \<open>What enters the map\<close>

lemma translateToolUse_map:
  "fst (translateToolUse rt block workDir fc) =
     (if field block ''name'' = Str ''Write'' \<and> \<not> nullish (field block ''input'') then
        map_set fc (field block ''id'')
          \<lparr>filePath = field (field block ''input'') ''file_path'', action = ''write''\<rparr>
      else if field block ''name'' = Str ''Edit'' \<and> \<not> nullish (field block ''input'') then
        map_set fc (field block ''id'')
          \<lparr>filePath = field (field block ''input'') ''file_path'', action = ''edit''\<rparr>
      else fc)"
  by (simp add: translateToolUse_def Let_def split: jsval.splits)

lemma set_map_set: "set (map_set fc k c) \<subseteq> insert (k, c) (set fc)"
  by (induction fc) (auto simp: same_key_def split: if_splits)

lemma in_set_map_filter:
  "y \<in> set (List.map_filter f xs) \<longleftrightarrow> (\<exists>x \<in> set xs. f x = Some y)"
  by (induction xs) (auto split: option.splits)

lemma map_get_in_set: "map_get fc k = Some c \<Longrightarrow> (k, c) \<in> set fc"
  by (induction fc) (auto simp: same_key_def split: if_splits)

lemma translateToolUse_entries:
  assumes "field block ''type'' = Str ''tool_use''"
    and "(k, c) \<in> set (fst (translateToolUse rt block workDir fc))"
  shows "(k, c) \<in> set fc \<or> invocation_descriptor block = Some (k, c)"
  using assms set_map_set [of fc "field block ''id''"]
  by (auto simp: translateToolUse_map invocation_descriptor_def split: if_splits)

lemma assistant_blocks_entries:
  "assistant_blocks rt sid workDir blocks fc = (evs, fc', thrown) \<Longrightarrow>
   (k, c) \<in> set fc' \<Longrightarrow>
   (k, c) \<in> set fc \<or> (\<exists>b \<in> set blocks. invocation_descriptor b = Some (k, c))"
proof (induction blocks arbitrary: fc evs fc' thrown)
  case Nil
  then show ?case by simp
next
  case (Cons block rest)
  show ?case
  proof (cases "nullish block")
    case True
    with Cons.prems show ?thesis by simp
  next
    case nn: False
    show ?thesis
    proof (cases "field block ''type'' = Str ''text'' \<and> truthy (field block ''text'')")
      case True
      with nn Cons.prems obtain evs1 where
        "assistant_blocks rt sid workDir rest fc = (evs1, fc', thrown)"
        by (auto split: prod.splits)
      from Cons.IH [OF this Cons.prems(2)] show ?thesis by auto
    next
      case nt: False
      show ?thesis
      proof (cases "field block ''type'' = Str ''tool_use''")
        case False
        with nn nt Cons.prems have
          "assistant_blocks rt sid workDir rest fc = (evs, fc', thrown)"
          by auto
        from Cons.IH [OF this Cons.prems(2)] show ?thesis by auto
      next
        case tu: True
        obtain fc1 r where tr: "translateToolUse rt block workDir fc = (fc1, r)"
          by (cases "translateToolUse rt block workDir fc") auto
        have step: "(k, c) \<in> set fc1 \<Longrightarrow>
                    (k, c) \<in> set fc \<or> invocation_descriptor block = Some (k, c)"
          using translateToolUse_entries [OF tu, of k c rt workDir fc] tr by simp
        show ?thesis
        proof (cases r)
          case (Inl e)
          with nn nt tu tr Cons.prems have "fc' = fc1" by auto
          with step Cons.prems(2) show ?thesis by auto
        next
          case (Inr translated)
          with nn nt tu tr Cons.prems obtain evs1 where
            "assistant_blocks rt sid workDir rest fc1 = (evs1, fc', thrown)"
            by (auto split: prod.splits)
          from Cons.IH [OF this Cons.prems(2)] step show ?thesis by auto
        qed
      qed
    qed
  qed
qed

lemma translateEvent_entries:
  assumes "translateEvent rt sid event workDir fc = (evs, fc', thrown)"
    and "(k, c) \<in> set fc'"
  shows "(k, c) \<in> set fc \<or> (k, c) \<in> set (frame_invocations event)"
proof (cases "field event ''type'' = Str ''assistant'' \<and> truthy (message_content event)")
  case False
  with assms have "fc' = fc"
    by (auto simp: translateEvent_def split: if_splits jsval.splits prod.splits)
  with assms(2) show ?thesis by simp
next
  case True
  then have nn: "\<not> nullish event" by (auto simp: field_Str_not_nullish)
  show ?thesis
  proof (cases "iterate (message_content event)")
    case (Inl e)
    with True nn assms have "fc' = fc" by (simp add: translateEvent_def)
    with assms(2) show ?thesis by simp
  next
    case (Inr blocks)
    with True nn assms have
      "assistant_blocks rt sid workDir blocks fc = (evs, fc', thrown)"
      by (simp add: translateEvent_def)
    from assistant_blocks_entries [OF this assms(2)] Inr True show ?thesis
      by (auto simp: frame_invocations_def in_set_map_filter)
  qed
qed


lemma user_blocks_file_changed:
  "user_blocks rt sid blocks fc = (evs, thrown) \<Longrightarrow>
   fe_file_changed s p a \<in> set evs \<Longrightarrow>
   \<exists>k c. (k, c) \<in> set fc \<and> p = filePath c \<and> a = action c"
proof (induction blocks arbitrary: evs thrown)
  case Nil
  then show ?case by simp
next
  case (Cons block rest)
  obtain evs1 thrown1 where rec: "user_blocks rt sid rest fc = (evs1, thrown1)"
    by (cases "user_blocks rt sid rest fc") auto
  show ?case
  proof (cases "\<not> nullish block \<and> field block ''type'' = Str ''tool_result''")
    case False
    with Cons.prems rec have "fe_file_changed s p a \<in> set evs1"
      by (auto split: if_splits)
    from Cons.IH [OF rec this] show ?thesis .
  next
    case True
    show ?thesis
    proof (cases "map_get fc (field block ''tool_use_id'')")
      case None
      with True Cons.prems rec have "fe_file_changed s p a \<in> set evs1"
        by (auto simp: Let_def)
      from Cons.IH [OF rec this] show ?thesis .
    next
      case (Some d)
      with True Cons.prems rec have
        "(p = filePath d \<and> a = action d) \<or> fe_file_changed s p a \<in> set evs1"
        by (auto simp: Let_def)
      then show ?thesis
        using Cons.IH [OF rec] map_get_in_set [OF Some] by blast
    qed
  qed
qed

lemma assistant_blocks_no_file_changed:
  "assistant_blocks rt sid workDir blocks fc = (evs, fc', thrown) \<Longrightarrow>
   fe_file_changed s p a \<notin> set evs"
proof (induction blocks arbitrary: fc evs fc' thrown)
  case Nil
  then show ?case by simp
next
  case (Cons block rest)
  then show ?case
    by (auto split: if_splits prod.splits sum.splits)
qed

lemma translateEvent_file_changed:
  assumes "translateEvent rt sid event workDir fc = (evs, fc', thrown)"
    and "fe_file_changed s p a \<in> set evs"
  shows "\<exists>k c. (k, c) \<in> set fc \<and> p = filePath c \<and> a = action c"
proof -
  consider (throws) "nullish event"
    | (init) "\<not> nullish event" "field event ''type'' = Str ''system''"
    | (result) "\<not> nullish event" "field event ''type'' = Str ''result''"
    | (assistant) "\<not> nullish event" "field event ''type'' = Str ''assistant''"
    | (user) "\<not> nullish event" "field event ''type'' = Str ''user''"
    | (other) "\<not> nullish event" "field event ''type'' \<noteq> Str ''system''"
        "field event ''type'' \<noteq> Str ''result''" "field event ''type'' \<noteq> Str ''assistant''"
        "field event ''type'' \<noteq> Str ''user''"
    by blast
  then show ?thesis
  proof cases
    case throws
    with assms show ?thesis by (simp add: translateEvent_def)
  next
    case init
    with assms show ?thesis by (auto simp: translateEvent_def split: if_splits)
  next
    case result
    with assms show ?thesis by (auto simp: translateEvent_def split: if_splits)
  next
    case assistant
    with assms show ?thesis
      by (auto simp: translateEvent_def assistant_blocks_no_file_changed
          split: if_splits sum.splits)
  next
    case user
    with assms show ?thesis
      by (auto simp: translateEvent_user split: if_splits jsval.splits prod.splits
          dest: user_blocks_file_changed)
  next
    case other
    with assms show ?thesis by (simp add: translateEvent_def)
  qed
qed

lemma handle_line_file_changed:
  assumes "handle_line rt sid workDir line fc = (evs, fc')"
    and "fe_file_changed s p a \<in> set evs"
  shows "\<exists>k c. (k, c) \<in> set fc \<and> p = filePath c \<and> a = action c"
  using assms
  by (auto simp: handle_line_def split: if_splits option.splits prod.splits
      dest: translateEvent_file_changed)

lemma handle_line_entries:
  assumes "handle_line rt sid workDir line fc = (evs, fc')"
    and "(k, c) \<in> set fc'"
  shows "(k, c) \<in> set fc \<or> (k, c) \<in> set (line_invocations rt line)"
  using assms
  by (auto simp: handle_line_def line_invocations_def
      split: if_splits option.splits prod.splits dest: translateEvent_entries)

lemma handle_lines_entries:
  "handle_lines rt sid workDir lines fc = (evs, fc') \<Longrightarrow>
   (k, c) \<in> set fc' \<Longrightarrow>
   (k, c) \<in> set fc \<or> (\<exists>l \<in> set lines. (k, c) \<in> set (line_invocations rt l))"
proof (induction lines arbitrary: fc evs)
  case Nil
  then show ?case by simp
next
  case (Cons line rest)
  obtain evs1 fc1 where h1: "handle_line rt sid workDir line fc = (evs1, fc1)"
    by (cases "handle_line rt sid workDir line fc") auto
  obtain evs2 where h2: "handle_lines rt sid workDir rest fc1 = (evs2, fc')"
    using Cons.prems(1) h1 by (auto split: prod.splits)
  from Cons.IH [OF h2 Cons.prems(2)]
  show ?case using handle_line_entries [OF h1, of k c] by auto
qed

lemma invocation_descriptor_action:
  "invocation_descriptor b = Some (k, c) \<Longrightarrow> action c = ''write'' \<or> action c = ''edit''"
  by (auto simp: invocation_descriptor_def split: if_splits)

lemma frame_invocations_Inl:
  "iterate (message_content event) = Inl e \<Longrightarrow> frame_invocations event = []"
  by (simp add: frame_invocations_def)

lemma frame_invocations_Inr:
  "iterate (message_content event) = Inr blocks \<Longrightarrow>
   frame_invocations event =
     (if field event ''type'' = Str ''assistant''
      then List.map_filter invocation_descriptor blocks else [])"
  by (simp add: frame_invocations_def)

lemma frame_invocations_action:
  assumes "(k, c) \<in> set (frame_invocations event)"
  shows "action c = ''write'' \<or> action c = ''edit''"
proof (cases "iterate (message_content event)")
  case (Inl e)
  from frame_invocations_Inl [OF this] assms show ?thesis by simp
next
  case (Inr blocks)
  from assms have "(k, c) \<in> set (List.map_filter invocation_descriptor blocks)"
    by (simp add: frame_invocations_Inr [OF Inr] split: if_split_asm)
  then obtain b where "invocation_descriptor b = Some (k, c)"
    by (auto simp: in_set_map_filter)
  then show ?thesis by (rule invocation_descriptor_action)
qed

lemma line_invocations_None:
  "JSON_parse rt l = None \<Longrightarrow> line_invocations rt l = []"
  by (simp add: line_invocations_def)

lemma line_invocations_Some:
  "JSON_parse rt l = Some event \<Longrightarrow>
   line_invocations rt l = (if trim l = [] then [] else frame_invocations event)"
  by (simp add: line_invocations_def)

lemma line_invocations_action:
  assumes "(k, c) \<in> set (line_invocations rt l)"
  shows "action c = ''write'' \<or> action c = ''edit''"
proof (cases "JSON_parse rt l")
  case None
  from line_invocations_None [OF this] assms show ?thesis by simp
next
  case (Some event)
  from assms have "(k, c) \<in> set (frame_invocations event)"
    by (simp add: line_invocations_Some [OF Some] split: if_split_asm)
  then show ?thesis by (rule frame_invocations_action)
qed


text \<open>
  C8. An entry enters the map of a session only in \<open>translateToolUse\<close>, which is called
  for the \<open>tool_use\<close> blocks of assistant frames only: for the tool name \<open>Write\<close> or \<open>Edit\<close>
  (and an input to read the path from) the entry is set at the block's \<open>id\<close>, with the
  block's \<open>file_path\<close> and the action \<open>write\<close> or \<open>edit\<close>; for every other tool name the map
  is returned as it was. So whatever is in the map after a frame was there before or is
  the entry of a Write or Edit invocation of that frame, and every \<open>fe_file_changed\<close>
  event broadcast for a line of subprocess output has the action \<open>write\<close> or \<open>edit\<close> and
  the path and action of a Write or Edit invocation of an earlier line.
\<close>

theorem only_write_edit_recorded:
  "fst (translateToolUse rt block workDir fc) =
     (if field block ''name'' = Str ''Write'' \<and> \<not> nullish (field block ''input'') then
        map_set fc (field block ''id'')
          \<lparr>filePath = field (field block ''input'') ''file_path'', action = ''write''\<rparr>
      else if field block ''name'' = Str ''Edit'' \<and> \<not> nullish (field block ''input'') then
        map_set fc (field block ''id'')
          \<lparr>filePath = field (field block ''input'') ''file_path'', action = ''edit''\<rparr>
      else fc)
   \<and> (\<forall>evs fc' thrown k c.
         translateEvent rt sid event workDir fc = (evs, fc', thrown) \<and> (k, c) \<in> set fc' \<longrightarrow>
         (k, c) \<in> set fc \<or> (k, c) \<in> set (frame_invocations event))
   \<and> (\<forall>evs0 fc0 evs1 fc1 s p a.
         handle_lines rt sid workDir before [] = (evs0, fc0)
         \<and> handle_line rt sid workDir line fc0 = (evs1, fc1)
         \<and> fe_file_changed s p a \<in> set evs1 \<longrightarrow>
         (a = ''write'' \<or> a = ''edit'')
         \<and> (\<exists>l \<in> set before. \<exists>(k, c) \<in> set (line_invocations rt l).
                p = filePath c \<and> a = action c))"
proof (intro conjI allI impI)
  show "fst (translateToolUse rt block workDir fc) =
     (if field block ''name'' = Str ''Write'' \<and> \<not> nullish (field block ''input'') then
        map_set fc (field block ''id'')
          \<lparr>filePath = field (field block ''input'') ''file_path'', action = ''write''\<rparr>
      else if field block ''name'' = Str ''Edit'' \<and> \<not> nullish (field block ''input'') then
        map_set fc (field block ''id'')
          \<lparr>filePath = field (field block ''input'') ''file_path'', action = ''edit''\<rparr>
      else fc)"
    by (rule translateToolUse_map)
next
  fix evs fc' thrown k c
  assume "translateEvent rt sid event workDir fc = (evs, fc', thrown) \<and> (k, c) \<in> set fc'"
  then show "(k, c) \<in> set fc \<or> (k, c) \<in> set (frame_invocations event)"
    using translateEvent_entries by blast
next
  fix evs0 fc0 evs1 fc1 s p a
  assume h: "handle_lines rt sid workDir before [] = (evs0, fc0)
         \<and> handle_line rt sid workDir line fc0 = (evs1, fc1)
         \<and> fe_file_changed s p a \<in> set evs1"
  then obtain k c where kc: "(k, c) \<in> set fc0" "p = filePath c" "a = action c"
    using handle_line_file_changed by blast
  from h kc(1) obtain l where l: "l \<in> set before" "(k, c) \<in> set (line_invocations rt l)"
    using handle_lines_entries [of rt sid workDir before "[]" evs0 fc0 k c] by auto
  from l(2) kc(3) show "a = ''write'' \<or> a = ''edit''"
    using line_invocations_action by blast
  from l kc show "\<exists>l \<in> set before. \<exists>(k, c) \<in> set (line_invocations rt l).
                p = filePath c \<and> a = action c"
    by blast
qed

theorem only_write_edit_recorded_witness:
  "handle_lines example_runtime ''s'' ''/w'' [write_line] [] =
     ([agent_event ''s'' write_frame,
       fe_tool_call ''s'' (Str ''x1'')
         [(''tool'', Str ''write''), (''filePath'', Str ''/w/a.txt''),
          (''content'', Str ''hi''), (''description'', Str ''Create a.txt'')]],
      x1_written)
   \<and> handle_line example_runtime ''s'' ''/w'' result_line x1_written =
     ([agent_event ''s'' result_frame,
       fe_tool_result ''s'' (Str ''x1'') (Str ''ok''),
       fe_file_changed ''s'' (Str ''/w/a.txt'') ''write''],
      x1_written)
   \<and> (\<exists>(k, c) \<in> set (line_invocations example_runtime write_line).
         Str ''/w/a.txt'' = filePath c \<and> ''write'' = action c)"
proof -
  let ?evs0 = "[agent_event ''s'' write_frame,
       fe_tool_call ''s'' (Str ''x1'')
         [(''tool'', Str ''write''), (''filePath'', Str ''/w/a.txt''),
          (''content'', Str ''hi''), (''description'', Str ''Create a.txt'')]]"
  let ?evs1 = "[agent_event ''s'' result_frame,
       fe_tool_result ''s'' (Str ''x1'') (Str ''ok''),
       fe_file_changed ''s'' (Str ''/w/a.txt'') ''write'']"
  have h0: "handle_lines example_runtime ''s'' ''/w'' [write_line] [] = (?evs0, x1_written)"
    by (simp add: handle_write_line)
  have h1: "handle_line example_runtime ''s'' ''/w'' result_line x1_written
              = (?evs1, x1_written)"
    by (rule handle_result_line)
  have h2: "fe_file_changed ''s'' (Str ''/w/a.txt'') ''write'' \<in> set ?evs1" by simp
  note th = only_write_edit_recorded [of example_runtime write_block "''/w''" "[]" "''s''"
      write_frame "[write_line]" result_line]
  from th h0 h1 h2
  have "\<exists>l \<in> set [write_line]. \<exists>(k, c) \<in> set (line_invocations example_runtime l).
                Str ''/w/a.txt'' = filePath c \<and> ''write'' = action c"
    by blast
  then show ?thesis using h0 h1 by simp
qed


section \<open>Sessions: the routes\<close>

lemma spawnAgent_ok:
  "or_else cwd (Str PROJECT_DIR) = Str workDir \<Longrightarrow>
   spawnAgent PROJECT_DIR prompt cwd sid True srv =
     Inr (sid,
          srv\<lparr>procs := procs srv @
                 [\<lparr>p_sessionId = sid, p_prompt = prompt, p_workDir = workDir, buffer = [],
                   fileChanges = [], closed = False, sigterm = 0\<rparr>],
               sessions := AList.update sid
                 \<lparr>s_proc = length (procs srv), s_prompt = prompt, s_cwd = workDir\<rparr>
                 (sessions srv),
               log := log srv @ [session_start sid prompt workDir]\<rparr>)"
  by (simp add: spawnAgent_def broadcast_def Let_def)

text \<open>
  C7. A request to create a session whose prompt is empty or missing (or falsy in any
  other way) is answered with status 400 and leaves the whole state as it was: no
  process, no session, no event. With a prompt that is a non-empty text, a working
  directory that is absent or a text, and a \<open>spawn\<close> that returns a process, the
  session is registered under the new id with the new process, \<open>session_start\<close> is
  broadcast, and the answer is the new id.
\<close>

theorem create_session_prompt:
  "(\<not> truthy (field body ''prompt'') \<longrightarrow>
      snd (post_session PROJECT_DIR body sid spawned srv) = srv
      \<and> (\<not> nullish body \<longrightarrow>
            fst (post_session PROJECT_DIR body sid spawned srv) =
              Status 400 (Obj [(''error'', Str ''prompt is required'')])))
   \<and> (field body ''prompt'' = Str prompt \<and> prompt \<noteq> []
        \<and> or_else (field body ''cwd'') (Str PROJECT_DIR) = Str workDir
        \<and> post_session PROJECT_DIR body sid True srv = (r, srv') \<longrightarrow>
        r = Json (Obj [(''sessionId'', Str sid)])
        \<and> map_of (sessions srv') sid =
            Some \<lparr>s_proc = length (procs srv), s_prompt = Str prompt, s_cwd = workDir\<rparr>
        \<and> procs srv' = procs srv @
            [\<lparr>p_sessionId = sid, p_prompt = Str prompt, p_workDir = workDir, buffer = [],
              fileChanges = [], closed = False, sigterm = 0\<rparr>]
        \<and> log srv' = log srv @ [session_start sid (Str prompt) workDir])"
proof (intro conjI impI)
  assume "\<not> truthy (field body ''prompt'')"
  then show "snd (post_session PROJECT_DIR body sid spawned srv) = srv"
    by (simp add: post_session_def)
next
  assume "\<not> truthy (field body ''prompt'')" and "\<not> nullish body"
  then show "fst (post_session PROJECT_DIR body sid spawned srv) =
              Status 400 (Obj [(''error'', Str ''prompt is required'')])"
    by (simp add: post_session_def)
next
  assume h: "field body ''prompt'' = Str prompt \<and> prompt \<noteq> []
        \<and> or_else (field body ''cwd'') (Str PROJECT_DIR) = Str workDir
        \<and> post_session PROJECT_DIR body sid True srv = (r, srv')"
  then have nn: "\<not> nullish body" by (auto simp: field_Str_not_nullish)
  from h have sp: "spawnAgent PROJECT_DIR (Str prompt) (field body ''cwd'') sid True srv =
     Inr (sid,
          srv\<lparr>procs := procs srv @
                 [\<lparr>p_sessionId = sid, p_prompt = Str prompt, p_workDir = workDir, buffer = [],
                   fileChanges = [], closed = False, sigterm = 0\<rparr>],
               sessions := AList.update sid
                 \<lparr>s_proc = length (procs srv), s_prompt = Str prompt, s_cwd = workDir\<rparr>
                 (sessions srv),
               log := log srv @ [session_start sid (Str prompt) workDir]\<rparr>)"
    by (simp add: spawnAgent_ok)
  from h nn sp have r: "r = Json (Obj [(''sessionId'', Str sid)])"
    and s: "srv' = srv\<lparr>procs := procs srv @
                 [\<lparr>p_sessionId = sid, p_prompt = Str prompt, p_workDir = workDir, buffer = [],
                   fileChanges = [], closed = False, sigterm = 0\<rparr>],
               sessions := AList.update sid
                 \<lparr>s_proc = length (procs srv), s_prompt = Str prompt, s_cwd = workDir\<rparr>
                 (sessions srv),
               log := log srv @ [session_start sid (Str prompt) workDir]\<rparr>"
    by (auto simp: post_session_def Let_def)
  from r show "r = Json (Obj [(''sessionId'', Str sid)])" .
  from s show "map_of (sessions srv') sid =
            Some \<lparr>s_proc = length (procs srv), s_prompt = Str prompt, s_cwd = workDir\<rparr>"
    by (simp add: update_conv')
  from s show "procs srv' = procs srv @
            [\<lparr>p_sessionId = sid, p_prompt = Str prompt, p_workDir = workDir, buffer = [],
              fileChanges = [], closed = False, sigterm = 0\<rparr>]"
    by simp
  from s show "log srv' = log srv @ [session_start sid (Str prompt) workDir]"
    by simp
qed

theorem create_session_prompt_witness:
  "\<not> truthy (field (Obj [(''prompt'', Str [])]) ''prompt'')
   \<and> post_session ''/proj'' (Obj [(''prompt'', Str [])]) ''s1'' True init =
       (Status 400 (Obj [(''error'', Str ''prompt is required'')]), init)
   \<and> field (Obj [(''prompt'', Str ''hello'')]) ''prompt'' = Str ''hello''
   \<and> or_else (field (Obj [(''prompt'', Str ''hello'')]) ''cwd'') (Str ''/proj'') = Str ''/proj''
   \<and> fst (post_session ''/proj'' (Obj [(''prompt'', Str ''hello'')]) ''s1'' True init) =
       Json (Obj [(''sessionId'', Str ''s1'')])
   \<and> log (snd (post_session ''/proj'' (Obj [(''prompt'', Str ''hello'')]) ''s1'' True init)) =
       [session_start ''s1'' (Str ''hello'') ''/proj'']"
proof -
  let ?bad = "Obj [(''prompt'', Str [])]"
  let ?good = "Obj [(''prompt'', Str ''hello'')]"
  obtain r srv' where po: "post_session ''/proj'' ?good ''s1'' True init = (r, srv')"
    by (cases "post_session ''/proj'' ?good ''s1'' True init") auto
  have f1: "\<not> truthy (field ?bad ''prompt'')" by simp
  have f2: "\<not> nullish ?bad" by simp
  have g1: "field ?good ''prompt'' = Str ''hello'' \<and> ''hello'' \<noteq> []" by simp
  have g2: "or_else (field ?good ''cwd'') (Str ''/proj'') = Str ''/proj''"
    by (simp add: or_else_def)
  note bad = create_session_prompt [where body = ?bad and PROJECT_DIR = "''/proj''"
      and sid = "''s1''" and spawned = True and srv = init,
      THEN conjunct1, rule_format, OF f1]
  note good = create_session_prompt [where body = ?good and PROJECT_DIR = "''/proj''"
      and sid = "''s1''" and srv = init and prompt = "''hello''" and workDir = "''/proj''"
      and r = r and srv' = srv', THEN conjunct2, rule_format]
  from bad f2 have b: "post_session ''/proj'' ?bad ''s1'' True init =
       (Status 400 (Obj [(''error'', Str ''prompt is required'')]), init)"
    by (metis prod.collapse)
  from good g1 g2 po have "r = Json (Obj [(''sessionId'', Str ''s1'')])
      \<and> log srv' = log init @ [session_start ''s1'' (Str ''hello'') ''/proj'']"
    by blast
  with po b f1 g1 g2 show ?thesis by (simp add: init_def)
qed


section \<open>Sessions: the steps of the event loop\<close>

lemma broadcast_simps [simp]:
  "procs (broadcast evs srv) = procs srv"
  "sessions (broadcast evs srv) = sessions srv"
  "log (broadcast evs srv) = log srv @ evs"
  by (simp_all add: broadcast_def)

lemma update_proc_simps [simp]:
  "sessions (update_proc pid f srv) = sessions srv"
  "log (update_proc pid f srv) = log srv"
  "length (procs (update_proc pid f srv)) = length (procs srv)"
  by (simp_all add: update_proc_def)

lemma update_proc_nth:
  "q < length (procs srv) \<Longrightarrow>
   procs (update_proc pid f srv) ! q = (if q = pid then f (procs srv ! q) else procs srv ! q)"
  by (simp add: update_proc_def)

lemma assistant_blocks_frame_events:
  "assistant_blocks rt sid workDir blocks fc = (evs, fc', thrown) \<Longrightarrow>
   \<forall>e \<in> set evs. frame_event sid e"
proof (induction blocks arbitrary: fc evs fc' thrown)
  case Nil
  then show ?case by simp
next
  case (Cons block rest)
  then show ?case
    by (fastforce simp: frame_event_def split: if_splits prod.splits sum.splits)
qed

lemma user_blocks_frame_events:
  "user_blocks rt sid blocks fc = (evs, thrown) \<Longrightarrow> \<forall>e \<in> set evs. frame_event sid e"
proof (induction blocks arbitrary: evs thrown)
  case Nil
  then show ?case by simp
next
  case (Cons block rest)
  then show ?case
    by (fastforce simp: frame_event_def Let_def split: if_splits prod.splits option.splits)
qed

lemma translateEvent_frame_events:
  assumes "translateEvent rt sid event workDir fc = (evs, fc', thrown)"
  shows "\<forall>e \<in> set evs. frame_event sid e"
proof (cases "nullish event")
  case True
  with assms show ?thesis by (simp add: translateEvent_def)
next
  case nn: False
  consider (init) "field event ''type'' = Str ''system'' \<and> field event ''subtype'' = Str ''init''"
    | (result) "field event ''type'' = Str ''result''"
    | (assistant) "field event ''type'' = Str ''assistant''"
    | (user) "field event ''type'' = Str ''user''"
    | (other) "\<not> (field event ''type'' = Str ''system'' \<and> field event ''subtype'' = Str ''init'')"
        "field event ''type'' \<noteq> Str ''result''" "field event ''type'' \<noteq> Str ''assistant''"
        "field event ''type'' \<noteq> Str ''user''"
    by blast
  then show ?thesis
  proof cases
    case init
    with assms nn show ?thesis by (auto simp: translateEvent_def frame_event_def)
  next
    case result
    with assms nn show ?thesis by (auto simp: translateEvent_def frame_event_def)
  next
    case assistant
    with assms nn show ?thesis
      by (auto simp: translateEvent_def split: if_splits sum.splits
          dest: assistant_blocks_frame_events)
  next
    case user
    with assms show ?thesis
      by (auto simp: translateEvent_user split: if_splits jsval.splits prod.splits
          dest: user_blocks_frame_events)
  next
    case other
    with assms nn show ?thesis by (simp add: translateEvent_def)
  qed
qed

lemma handle_line_frame_events:
  assumes "handle_line rt sid workDir line fc = (evs, fc')"
  shows "\<forall>e \<in> set evs. frame_event sid e"
proof (cases "trim line = []")
  case True
  with assms show ?thesis by (simp add: handle_line_def)
next
  case nb: False
  show ?thesis
  proof (cases "JSON_parse rt line")
    case None
    with assms nb show ?thesis by (auto simp: handle_line_def frame_event_def)
  next
    case (Some event)
    obtain evs1 fc1 thrown where tr:
      "translateEvent rt sid event workDir fc = (evs1, fc1, thrown)"
      by (cases "translateEvent rt sid event workDir fc") auto
    from translateEvent_frame_events [OF tr] assms nb Some tr show ?thesis
      by (auto simp: handle_line_def frame_event_def split: option.splits)
  qed
qed

lemma handle_lines_frame_events:
  "handle_lines rt sid workDir lines fc = (evs, fc') \<Longrightarrow> \<forall>e \<in> set evs. frame_event sid e"
proof (induction lines arbitrary: fc evs)
  case Nil
  then show ?case by simp
next
  case (Cons line rest)
  obtain evs1 fc1 where h1: "handle_line rt sid workDir line fc = (evs1, fc1)"
    by (cases "handle_line rt sid workDir line fc") auto
  obtain evs2 where h2: "handle_lines rt sid workDir rest fc1 = (evs2, fc')"
    and ev: "evs = evs1 @ evs2"
    using Cons.prems h1 by (auto split: prod.splits)
  from Cons.IH [OF h2] handle_line_frame_events [OF h1] ev show ?case by auto
qed


lemma post_session_rejected:
  "\<not> creates PROJECT_DIR (PostSession body sid spawned) \<Longrightarrow>
   snd (post_session PROJECT_DIR body sid spawned srv) = srv"
  by (auto simp: post_session_def spawnAgent_def Let_def split: jsval.splits)

lemma post_session_created:
  assumes "creates PROJECT_DIR (PostSession body sid spawned)"
  shows "\<exists>workDir.
           or_else (field body ''cwd'') (Str PROJECT_DIR) = Str workDir
           \<and> snd (post_session PROJECT_DIR body sid spawned srv) =
               srv\<lparr>procs := procs srv @
                      [\<lparr>p_sessionId = sid, p_prompt = field body ''prompt'',
                        p_workDir = workDir, buffer = [], fileChanges = [],
                        closed = False, sigterm = 0\<rparr>],
                    sessions := AList.update sid
                      \<lparr>s_proc = length (procs srv), s_prompt = field body ''prompt'',
                        s_cwd = workDir\<rparr>
                      (sessions srv),
                    log := log srv @
                      [session_start sid (field body ''prompt'') workDir]\<rparr>"
proof -
  from assms obtain workDir where
    wd: "or_else (field body ''cwd'') (Str PROJECT_DIR) = Str workDir"
    by (auto split: jsval.splits)
  from assms have sp: "spawned" and nn: "\<not> nullish body"
    and tp: "truthy (field body ''prompt'')" by auto
  show ?thesis
    using wd sp nn tp by (simp add: post_session_def Let_def spawnAgent_ok)
qed

lemma on_stdout_data_sessions [simp]:
  "sessions (on_stdout_data rt pid chunk srv) = sessions srv"
  by (simp add: on_stdout_data_def Let_def split: prod.splits)

lemma step_keeps_session:
  assumes "\<forall>pid code. i \<noteq> Close pid code"
    and "map_of (sessions srv) sid \<noteq> None"
  shows "map_of (sessions (snd (step rt PROJECT_DIR i srv))) sid \<noteq> None"
proof (cases i)
  case (PostSession body sid' spawned)
  show ?thesis
  proof (cases "creates PROJECT_DIR (PostSession body sid' spawned)")
    case True
    from post_session_created [OF True, of srv] assms(2) PostSession show ?thesis
      by (auto simp: update_conv' split: prod.splits)
  next
    case False
    from post_session_rejected [OF False, of srv] assms(2) PostSession show ?thesis
      by (auto split: prod.splits)
  qed
next
  case GetSessions
  with assms show ?thesis by simp
next
  case (DeleteSession sid')
  with assms show ?thesis
    by (auto simp: delete_session_def split: option.splits)
next
  case (StdoutData pid chunk)
  with assms show ?thesis
    by (auto simp: deliver_def)
next
  case (StderrData pid chunk)
  with assms show ?thesis
    by (auto simp: deliver_def on_stderr_data_def)
next
  case (Close pid code)
  with assms show ?thesis by simp
qed

lemma step_log_no_session_end:
  assumes "\<forall>pid code. i \<noteq> Close pid code"
  shows "\<exists>evs. log (snd (step rt PROJECT_DIR i srv)) = log srv @ evs
            \<and> (\<forall>e \<in> set evs. event_type e \<noteq> ''session_end'')"
proof (cases i)
  case (PostSession body sid' spawned)
  show ?thesis
  proof (cases "creates PROJECT_DIR (PostSession body sid' spawned)")
    case True
    from post_session_created [OF True, of srv] PostSession show ?thesis
      by (auto split: prod.splits)
  next
    case False
    from post_session_rejected [OF False, of srv] PostSession show ?thesis
      by (auto split: prod.splits)
  qed
next
  case GetSessions
  then show ?thesis by simp
next
  case (DeleteSession sid')
  then show ?thesis
    by (auto simp: delete_session_def split: option.splits)
next
  case (StdoutData pid chunk)
  show ?thesis
  proof (cases "running pid srv")
    case False
    with StdoutData show ?thesis by (simp add: deliver_def)
  next
    case True
    obtain lines buf' where dc:
      "decode_chunk (buffer (procs srv ! pid)) (Buffer_toString rt chunk) = (lines, buf')"
      by (cases "decode_chunk (buffer (procs srv ! pid)) (Buffer_toString rt chunk)") auto
    obtain evs fc' where hl:
      "handle_lines rt (p_sessionId (procs srv ! pid)) (p_workDir (procs srv ! pid)) lines
          (fileChanges (procs srv ! pid)) = (evs, fc')"
      by (cases "handle_lines rt (p_sessionId (procs srv ! pid)) (p_workDir (procs srv ! pid))
          lines (fileChanges (procs srv ! pid))") auto
    from handle_lines_frame_events [OF hl] have "\<forall>e \<in> set evs. event_type e \<noteq> ''session_end''"
      by (simp add: frame_event_def)
    with True StdoutData dc hl show ?thesis
      by (simp add: deliver_def on_stdout_data_def Let_def)
  qed
next
  case (StderrData pid chunk)
  then show ?thesis
    by (auto simp: deliver_def on_stderr_data_def)
next
  case (Close pid code)
  with assms show ?thesis by simp
qed

text \<open>
  C6. A request to end a session whose id is not registered is answered with status
  404 and leaves the whole state as it was. For a registered id the answer is the
  acknowledgement, at once: the process is sent SIGTERM and nothing else changes, the
  session stays registered and no event is broadcast; so the same request again is
  acknowledged again. No request and no output of a process removes a registered
  session or broadcasts \<open>session_end\<close>: only the close of a process does.
\<close>

theorem terminate_session:
  "(map_of (sessions srv) sid = None \<longrightarrow>
      delete_session sid srv =
        (Status 404 (Obj [(''error'', Str ''session not found'')]), srv))
   \<and> (map_of (sessions srv) sid = Some s \<longrightarrow>
        fst (delete_session sid srv) = Json (Obj [(''ok'', Bool True)])
        \<and> snd (delete_session sid srv) =
            update_proc (s_proc s) (\<lambda>p. p\<lparr>sigterm := sigterm p + 1\<rparr>) srv
        \<and> sessions (snd (delete_session sid srv)) = sessions srv
        \<and> log (snd (delete_session sid srv)) = log srv
        \<and> fst (delete_session sid (snd (delete_session sid srv))) =
            Json (Obj [(''ok'', Bool True)]))
   \<and> (\<forall>i. (\<forall>pid code. i \<noteq> Close pid code) \<and> map_of (sessions srv) sid \<noteq> None \<longrightarrow>
          map_of (sessions (snd (step rt PROJECT_DIR i srv))) sid \<noteq> None
          \<and> (\<exists>evs. log (snd (step rt PROJECT_DIR i srv)) = log srv @ evs
                \<and> (\<forall>e \<in> set evs. event_type e \<noteq> ''session_end'')))"
proof (intro conjI impI allI)
  assume "map_of (sessions srv) sid = None"
  then show "delete_session sid srv =
        (Status 404 (Obj [(''error'', Str ''session not found'')]), srv)"
    by (simp add: delete_session_def)
next
  assume s: "map_of (sessions srv) sid = Some s"
  then show "fst (delete_session sid srv) = Json (Obj [(''ok'', Bool True)])"
    by (simp add: delete_session_def)
  from s show "snd (delete_session sid srv) =
            update_proc (s_proc s) (\<lambda>p. p\<lparr>sigterm := sigterm p + 1\<rparr>) srv"
    by (simp add: delete_session_def)
  from s show "sessions (snd (delete_session sid srv)) = sessions srv"
    by (simp add: delete_session_def)
  from s show "log (snd (delete_session sid srv)) = log srv"
    by (simp add: delete_session_def)
  from s show "fst (delete_session sid (snd (delete_session sid srv))) =
            Json (Obj [(''ok'', Bool True)])"
    by (simp add: delete_session_def)
next
  fix i
  assume h: "(\<forall>pid code. i \<noteq> Close pid code) \<and> map_of (sessions srv) sid \<noteq> None"
  then show "map_of (sessions (snd (step rt PROJECT_DIR i srv))) sid \<noteq> None"
    using step_keeps_session by blast
  from h show "\<exists>evs. log (snd (step rt PROJECT_DIR i srv)) = log srv @ evs
                \<and> (\<forall>e \<in> set evs. event_type e \<noteq> ''session_end'')"
    using step_log_no_session_end by blast
qed


theorem terminate_session_witness:
  "map_of (sessions one_session) ''zz'' = None
   \<and> delete_session ''zz'' one_session =
       (Status 404 (Obj [(''error'', Str ''session not found'')]), one_session)
   \<and> map_of (sessions one_session) ''s1''
       = Some \<lparr>s_proc = 0, s_prompt = Str ''hello'', s_cwd = ''/w''\<rparr>
   \<and> fst (delete_session ''s1'' one_session) = Json (Obj [(''ok'', Bool True)])
   \<and> sessions (snd (delete_session ''s1'' one_session)) = sessions one_session
   \<and> map_of (sessions (snd (step example_runtime ''/proj'' (DeleteSession ''s1'') one_session)))
        ''s1'' \<noteq> None"
proof -
  let ?s = "\<lparr>s_proc = 0, s_prompt = Str ''hello'', s_cwd = ''/w''\<rparr>"
  have n: "map_of (sessions one_session) ''zz'' = None"
    by (simp add: one_session_def)
  have y: "map_of (sessions one_session) ''s1'' = Some ?s"
    by (simp add: one_session_def)
  have i: "(\<forall>pid code. DeleteSession ''s1'' \<noteq> Close pid code)
           \<and> map_of (sessions one_session) ''s1'' \<noteq> None"
    using y by simp
  note th = terminate_session [where srv = one_session and rt = example_runtime
      and PROJECT_DIR = "''/proj''"]
  from th [where sid = "''zz''"] n
  have a: "delete_session ''zz'' one_session =
       (Status 404 (Obj [(''error'', Str ''session not found'')]), one_session)"
    by blast
  from th [where sid = "''s1''" and s = ?s] y
  have b: "fst (delete_session ''s1'' one_session) = Json (Obj [(''ok'', Bool True)])
           \<and> sessions (snd (delete_session ''s1'' one_session)) = sessions one_session"
    by blast
  from th [where sid = "''s1''"] i
  have c: "map_of (sessions (snd (step example_runtime ''/proj'' (DeleteSession ''s1'')
              one_session))) ''s1'' \<noteq> None"
    by blast
  from n a y b c show ?thesis by blast
qed

section \<open>Sessions: the close of a process\<close>

lemma step_closed_stays:
  assumes "pid < length (procs srv)" and "closed (procs srv ! pid)"
  shows "pid < length (procs (snd (step rt PROJECT_DIR i srv)))
       \<and> closed (procs (snd (step rt PROJECT_DIR i srv)) ! pid)
       \<and> buffer (procs (snd (step rt PROJECT_DIR i srv)) ! pid) = buffer (procs srv ! pid)"
proof (cases i)
  case (PostSession body sid' spawned)
  show ?thesis
  proof (cases "creates PROJECT_DIR (PostSession body sid' spawned)")
    case True
    from post_session_created [OF True, of srv] PostSession assms show ?thesis
      by (auto simp: nth_append split: prod.splits)
  next
    case False
    from post_session_rejected [OF False, of srv] PostSession assms show ?thesis
      by (auto split: prod.splits)
  qed
next
  case GetSessions
  with assms show ?thesis by simp
next
  case (DeleteSession sid')
  with assms show ?thesis
    by (auto simp: delete_session_def update_proc_nth split: option.splits)
next
  case (StdoutData q chunk)
  show ?thesis
  proof (cases "running q srv")
    case False
    with StdoutData assms show ?thesis by (simp add: deliver_def)
  next
    case True
    with assms have "q \<noteq> pid" by (auto simp: running_def)
    with True StdoutData assms show ?thesis
      by (auto simp: deliver_def on_stdout_data_def Let_def update_proc_nth
          split: prod.splits)
  qed
next
  case (StderrData q chunk)
  with assms show ?thesis
    by (auto simp: deliver_def on_stderr_data_def)
next
  case (Close q code)
  show ?thesis
  proof (cases "running q srv")
    case False
    with Close assms show ?thesis by (simp add: deliver_def)
  next
    case True
    with assms have "q \<noteq> pid" by (auto simp: running_def)
    with True Close assms show ?thesis
      by (auto simp: deliver_def on_close_def Let_def update_proc_nth update_proc_def)
  qed
qed

lemma run_closed_stays:
  "pid < length (procs srv) \<Longrightarrow> closed (procs srv ! pid) \<Longrightarrow>
   emitted rt PROJECT_DIR pid ins srv = []
   \<and> \<not> running pid (run rt PROJECT_DIR ins srv)
   \<and> buffer (procs (run rt PROJECT_DIR ins srv) ! pid) = buffer (procs srv ! pid)"
proof (induction ins arbitrary: srv)
  case Nil
  then show ?case by (simp add: running_def)
next
  case (Cons i ins)
  from step_closed_stays [OF Cons.prems, of rt PROJECT_DIR i]
  have a: "pid < length (procs (snd (step rt PROJECT_DIR i srv)))"
    and b: "closed (procs (snd (step rt PROJECT_DIR i srv)) ! pid)"
    and c: "buffer (procs (snd (step rt PROJECT_DIR i srv)) ! pid) = buffer (procs srv ! pid)"
    by simp_all
  from Cons.IH [OF a b] c Cons.prems show ?case
    by (simp add: signal_of_def running_def)
qed

text \<open>
  C10. When a process closes, whatever its buffer holds (a last line with no newline
  after it): the only event broadcast is \<open>session_end\<close> with the exit code, the session
  is no longer registered, and the process is closed with its buffer as it was. From
  then on, whatever comes, no callback of that process runs again and its buffer is
  never read or changed: the text left in it reaches no event.
\<close>

theorem close_discards_remainder:
  assumes "running pid srv"
    and "p = procs srv ! pid"
    and "srv' = snd (step rt PROJECT_DIR (Close pid code) srv)"
  shows "log srv' = log srv @ [session_end (p_sessionId p) code]
       \<and> map_of (sessions srv') (p_sessionId p) = None
       \<and> procs srv' = (procs srv)[pid := p\<lparr>closed := True\<rparr>]
       \<and> (\<forall>ins. emitted rt PROJECT_DIR pid ins srv' = []
              \<and> \<not> running pid (run rt PROJECT_DIR ins srv')
              \<and> buffer (procs (run rt PROJECT_DIR ins srv') ! pid) = buffer p)"
proof -
  from assms have lt: "pid < length (procs srv)" by (simp add: running_def)
  from assms have eq: "srv' = update_proc pid (\<lambda>p. p\<lparr>closed := True\<rparr>) (on_close pid code srv)"
    by (simp add: deliver_def)
  have l: "log srv' = log srv @ [session_end (p_sessionId p) code]"
    using eq assms(2) by (simp add: on_close_def Let_def)
  have s: "map_of (sessions srv') (p_sessionId p) = None"
    using eq assms(2) by (simp add: on_close_def Let_def delete_conv')
  have pr: "procs srv' = (procs srv)[pid := p\<lparr>closed := True\<rparr>]"
    using eq assms(2) lt by (simp add: on_close_def Let_def update_proc_def)
  from pr lt have a: "pid < length (procs srv')" and b: "closed (procs srv' ! pid)"
    and c: "buffer (procs srv' ! pid) = buffer p"
    by simp_all
  from run_closed_stays [OF a b] c l s pr show ?thesis by simp
qed


lemma snd_step:
  "snd (step rt PROJECT_DIR (PostSession body sid spawned) srv) =
     snd (post_session PROJECT_DIR body sid spawned srv)"
  "snd (step rt PROJECT_DIR GetSessions srv) = srv"
  "snd (step rt PROJECT_DIR (DeleteSession sid) srv) = snd (delete_session sid srv)"
  "snd (step rt PROJECT_DIR (StdoutData pid chunk) srv) =
     deliver pid (on_stdout_data rt pid chunk) srv"
  "snd (step rt PROJECT_DIR (StderrData pid chunk) srv) =
     deliver pid (on_stderr_data rt pid chunk) srv"
  "snd (step rt PROJECT_DIR (Close pid code) srv) =
     deliver pid (\<lambda>s. update_proc pid (\<lambda>p. p\<lparr>closed := True\<rparr>) (on_close pid code s)) srv"
  by (simp_all split: prod.splits)

lemma one_session_reached:
  "run example_runtime ''/proj''
     [PostSession (Obj [(''prompt'', Str ''hello''), (''cwd'', Str ''/w'')]) ''s1'' True,
      StdoutData 0 (utf8 ''tail'')] init = one_session"
proof -
  let ?srv1 = "\<lparr>sessions = [(''s1'', \<lparr>s_proc = 0, s_prompt = Str ''hello'', s_cwd = ''/w''\<rparr>)],
             procs = [\<lparr>p_sessionId = ''s1'', p_prompt = Str ''hello'', p_workDir = ''/w'',
                buffer = [], fileChanges = [], closed = False, sigterm = 0\<rparr>],
             log = [session_start ''s1'' (Str ''hello'') ''/w'']\<rparr>"
  have tx: "Buffer_toString example_runtime (utf8 ''tail'') = ''tail''"
    by (simp add: example_runtime_def utf8_def) code_simp
  have po: "snd (post_session ''/proj'' (Obj [(''prompt'', Str ''hello''), (''cwd'', Str ''/w'')])
              ''s1'' True init) = ?srv1"
    by (simp add: post_session_def spawnAgent_def or_else_def Let_def init_def broadcast_def)
  have st: "deliver 0 (on_stdout_data example_runtime 0 (utf8 ''tail'')) ?srv1 = one_session"
    by (simp add: deliver_def running_def on_stdout_data_def tx decode_chunk_def
          newline_def update_proc_def broadcast_def one_session_def)
  show ?thesis
    by (simp only: run.simps snd_step po st)
qed

theorem close_discards_remainder_witness:
  "running 0 one_session
   \<and> buffer (procs one_session ! 0) = ''tail''
   \<and> log (snd (step example_runtime ''/proj'' (Close 0 (Some 0)) one_session)) =
       [session_start ''s1'' (Str ''hello'') ''/w'', session_end ''s1'' (Some 0)]
   \<and> map_of (sessions (snd (step example_runtime ''/proj'' (Close 0 (Some 0)) one_session)))
        ''s1'' = None
   \<and> emitted example_runtime ''/proj'' 0 [StdoutData 0 (utf8 ''x\<newline>'')]
        (snd (step example_runtime ''/proj'' (Close 0 (Some 0)) one_session)) = []"
proof -
  let ?srv' = "snd (step example_runtime ''/proj'' (Close 0 (Some 0)) one_session)"
  have r: "running 0 one_session" by (simp add: running_def one_session_def)
  have b: "buffer (procs one_session ! 0) = ''tail''" by (simp add: one_session_def)
  have s: "p_sessionId (procs one_session ! 0) = ''s1''" by (simp add: one_session_def)
  have l: "log one_session = [session_start ''s1'' (Str ''hello'') ''/w'']"
    by (simp add: one_session_def)
  note th = close_discards_remainder [OF r refl refl, of example_runtime "''/proj''" "Some 0"]
  from th have c1: "log ?srv' = log one_session @ [session_end ''s1'' (Some 0)]"
    and c2: "map_of (sessions ?srv') ''s1'' = None"
    unfolding s by blast+
  from th have c3: "emitted example_runtime ''/proj'' 0 [StdoutData 0 (utf8 ''x\<newline>'')]
        ?srv' = []"
    by blast
  from r b c1 c2 c3 l show ?thesis by simp
qed



section \<open>Sessions: one process in a run\<close>

lemma run_snoc:
  "run rt PROJECT_DIR (ins @ [i]) srv = snd (step rt PROJECT_DIR i (run rt PROJECT_DIR ins srv))"
  by (induction ins arbitrary: srv) simp_all

lemma emitted_snoc:
  "emitted rt PROJECT_DIR pid (ins @ [i]) srv =
     emitted rt PROJECT_DIR pid ins srv @ signal_of pid i (run rt PROJECT_DIR ins srv)"
  by (induction ins arbitrary: srv) simp_all

lemma created_ids_append:
  "created_ids PROJECT_DIR (xs @ ys) = created_ids PROJECT_DIR xs @ created_ids PROJECT_DIR ys"
proof (induction xs)
  case Nil
  show ?case by simp
next
  case (Cons i xs)
  then show ?case by (cases i) simp_all
qed

lemma session_run_append:
  "session_run rt sid workDir (xs @ ys) buf fc =
     (case session_run rt sid workDir xs buf fc of
        (evs, buf1, fc1) \<Rightarrow>
          (case session_run rt sid workDir ys buf1 fc1 of
             (evs', state) \<Rightarrow> (evs @ evs', state)))"
proof (induction xs arbitrary: buf fc)
  case Nil
  show ?case by (simp split: prod.splits)
next
  case (Cons s xs)
  show ?case
    by (cases s) (simp_all add: Cons.IH split: prod.splits)
qed

lemma filter_all: "\<forall>e \<in> set evs. P e \<Longrightarrow> filter P evs = evs"
  by (induction evs) auto

lemma filter_none: "\<forall>e \<in> set evs. \<not> P e \<Longrightarrow> filter P evs = []"
  by (induction evs) auto

lemma signal_of_not_running: "\<not> running pid srv \<Longrightarrow> signal_of pid i srv = []"
  by (simp add: signal_of_def)

lemma step_local:
  assumes lt: "pid < length (procs srv)"
    and di: "distinct (map p_sessionId (procs srv))"
    and fr: "set (created_ids PROJECT_DIR [i]) \<inter> set (map p_sessionId (procs srv)) = {}"
    and s'd: "srv' = snd (step rt PROJECT_DIR i srv)"
    and pd: "p = procs srv ! pid"
    and p'd: "p' = procs srv' ! pid"
  shows "pid < length (procs srv')
       \<and> p_sessionId p' = p_sessionId p \<and> p_prompt p' = p_prompt p \<and> p_workDir p' = p_workDir p
       \<and> (\<exists>evs. session_run rt (p_sessionId p) (p_workDir p) (signal_of pid i srv)
                   (buffer p) (fileChanges p) = (evs, buffer p', fileChanges p')
                \<and> filter (\<lambda>e. sessionId e = p_sessionId p) (log srv') =
                    filter (\<lambda>e. sessionId e = p_sessionId p) (log srv) @ evs)
       \<and> (closed p' \<longleftrightarrow> closed p \<or> (\<exists>code. signal_of pid i srv = [Exit code]))
       \<and> (signal_of pid i srv = [] \<or> (\<not> closed p \<and> (\<exists>s. signal_of pid i srv = [s])))"
proof (cases i)
  case (PostSession body sid' spawned)
  have sg: "signal_of pid i srv = []" using PostSession by (simp add: signal_of_def)
  show ?thesis
  proof (cases "creates PROJECT_DIR i")
    case False
    then have "srv' = srv"
      using PostSession post_session_rejected [of PROJECT_DIR body sid' spawned srv]
      by (simp add: s'd snd_step del: step.simps)
    then show ?thesis using lt sg by (simp add: pd p'd)
  next
    case True
    from fr PostSession True lt have ne: "sid' \<noteq> p_sessionId p"
      by (auto simp: pd)
    from True PostSession post_session_created [of PROJECT_DIR body sid' spawned srv]
    obtain workDir where
      s': "srv' = srv\<lparr>procs := procs srv @
                      [\<lparr>p_sessionId = sid', p_prompt = field body ''prompt'',
                        p_workDir = workDir, buffer = [], fileChanges = [],
                        closed = False, sigterm = 0\<rparr>],
                    sessions := AList.update sid'
                      \<lparr>s_proc = length (procs srv), s_prompt = field body ''prompt'',
                        s_cwd = workDir\<rparr>
                      (sessions srv),
                    log := log srv @
                      [session_start sid' (field body ''prompt'') workDir]\<rparr>"
      by (auto simp: s'd snd_step simp del: step.simps)
    from s' lt have pp: "p' = p" by (simp add: pd p'd nth_append)
    from s' lt ne pp sg show ?thesis by simp
  qed
next
  case GetSessions
  then have "srv' = srv" by (simp add: s'd)
  moreover have "signal_of pid i srv = []" using GetSessions by (simp add: signal_of_def)
  ultimately show ?thesis using lt by (simp add: pd p'd)
next
  case (DeleteSession sid')
  have sg: "signal_of pid i srv = []" using DeleteSession by (simp add: signal_of_def)
  show ?thesis
  proof (cases "map_of (sessions srv) sid'")
    case None
    then have "srv' = srv" using DeleteSession by (simp add: s'd delete_session_def)
    then show ?thesis using lt sg by (simp add: pd p'd)
  next
    case (Some s)
    then have "srv' = update_proc (s_proc s) (\<lambda>p. p\<lparr>sigterm := sigterm p + 1\<rparr>) srv"
      using DeleteSession by (simp add: s'd delete_session_def)
    then show ?thesis using lt sg by (simp add: pd p'd update_proc_nth)
  qed
next
  case (StdoutData q chunk)
  show ?thesis
  proof (cases "running q srv")
    case False
    then have s': "srv' = srv" using StdoutData by (simp add: s'd deliver_def)
    have "signal_of pid i srv = []" using StdoutData False by (auto simp: signal_of_def)
    with s' lt show ?thesis by (simp add: pd p'd)
  next
    case True
    let ?q = "procs srv ! q"
    obtain lines buf' where dc:
      "decode_chunk (buffer ?q) (Buffer_toString rt chunk) = (lines, buf')"
      by (cases "decode_chunk (buffer ?q) (Buffer_toString rt chunk)") auto
    obtain evs fc' where hl:
      "handle_lines rt (p_sessionId ?q) (p_workDir ?q) lines (fileChanges ?q) = (evs, fc')"
      by (cases "handle_lines rt (p_sessionId ?q) (p_workDir ?q) lines (fileChanges ?q)") auto
    have s': "srv' = broadcast evs
                (update_proc q (\<lambda>p. p\<lparr>buffer := buf', fileChanges := fc'\<rparr>) srv)"
      using StdoutData True dc hl
      by (simp add: s'd deliver_def on_stdout_data_def Let_def)
    have ev: "\<forall>e \<in> set evs. sessionId e = p_sessionId ?q"
      using handle_lines_frame_events [OF hl] by (simp add: frame_event_def)
    show ?thesis
    proof (cases "q = pid")
      case True
      have sg: "signal_of pid i srv = [Out chunk]"
        using StdoutData \<open>running q srv\<close> True by (simp add: signal_of_def)
      have nc: "\<not> closed p" using \<open>running q srv\<close> True by (simp add: running_def pd)
      from s' lt True have pp: "p' = p\<lparr>buffer := buf', fileChanges := fc'\<rparr>"
        by (simp add: pd p'd update_proc_nth)
      from ev True have f: "filter (\<lambda>e. sessionId e = p_sessionId p) evs = evs"
        by (simp add: filter_all pd)
      from dc hl True have sr: "session_run rt (p_sessionId p) (p_workDir p) [Out chunk]
                   (buffer p) (fileChanges p) = (evs, buf', fc')"
        by (simp add: pd)
      from s' lt sg nc pp f sr show ?thesis by simp
    next
      case False
      have sg: "signal_of pid i srv = []"
        using StdoutData False by (auto simp: signal_of_def)
      from s' lt False have pp: "p' = p" by (simp add: pd p'd update_proc_nth)
      from True have "q < length (procs srv)" by (simp add: running_def)
      with di lt False have "p_sessionId ?q \<noteq> p_sessionId p"
        by (simp add: pd distinct_conv_nth)
      with ev have f: "filter (\<lambda>e. sessionId e = p_sessionId p) evs = []"
        by (simp add: filter_none)
      from s' lt sg pp f show ?thesis by simp
    qed
  qed
next
  case (StderrData q chunk)
  show ?thesis
  proof (cases "running q srv")
    case False
    then have s': "srv' = srv" using StderrData by (simp add: s'd deliver_def)
    have "signal_of pid i srv = []" using StderrData False by (auto simp: signal_of_def)
    with s' lt show ?thesis by (simp add: pd p'd)
  next
    case True
    let ?q = "procs srv ! q"
    have s': "srv' = broadcast [stderr (p_sessionId ?q) (Buffer_toString rt chunk)] srv"
      using StderrData True by (simp add: s'd deliver_def on_stderr_data_def)
    from s' have pp: "p' = p" by (simp add: pd p'd)
    show ?thesis
    proof (cases "q = pid")
      case True
      have sg: "signal_of pid i srv = [Err chunk]"
        using StderrData \<open>running q srv\<close> True by (simp add: signal_of_def)
      have nc: "\<not> closed p" using \<open>running q srv\<close> True by (simp add: running_def pd)
      from s' lt sg nc pp True show ?thesis by (simp add: pd)
    next
      case False
      have sg: "signal_of pid i srv = []"
        using StderrData False by (auto simp: signal_of_def)
      from True have "q < length (procs srv)" by (simp add: running_def)
      with di lt False have "p_sessionId ?q \<noteq> p_sessionId p"
        by (simp add: pd distinct_conv_nth)
      with s' lt sg pp show ?thesis by simp
    qed
  qed
next
  case (Close q code)
  show ?thesis
  proof (cases "running q srv")
    case False
    then have s': "srv' = srv" using Close by (simp add: s'd deliver_def)
    have "signal_of pid i srv = []" using Close False by (auto simp: signal_of_def)
    with s' lt show ?thesis by (simp add: pd p'd)
  next
    case True
    let ?q = "procs srv ! q"
    have s': "srv' = update_proc q (\<lambda>p. p\<lparr>closed := True\<rparr>)
                (broadcast [session_end (p_sessionId ?q) code]
                   (srv\<lparr>sessions := AList.delete (p_sessionId ?q) (sessions srv)\<rparr>))"
      using Close True by (simp add: s'd deliver_def on_close_def Let_def)
    show ?thesis
    proof (cases "q = pid")
      case True
      have sg: "signal_of pid i srv = [Exit code]"
        using Close \<open>running q srv\<close> True by (simp add: signal_of_def)
      have nc: "\<not> closed p" using \<open>running q srv\<close> True by (simp add: running_def pd)
      from s' lt True have pp: "p' = p\<lparr>closed := True\<rparr>"
        by (simp add: pd p'd update_proc_nth)
      from s' lt sg nc pp True show ?thesis by (simp add: pd)
    next
      case False
      have sg: "signal_of pid i srv = []"
        using Close False by (auto simp: signal_of_def)
      from s' lt False have pp: "p' = p" by (simp add: pd p'd update_proc_nth)
      from True have "q < length (procs srv)" by (simp add: running_def)
      with di lt False have "p_sessionId ?q \<noteq> p_sessionId p"
        by (simp add: pd distinct_conv_nth)
      with s' lt sg pp show ?thesis by simp
    qed
  qed
qed


lemma update_proc_ids:
  assumes "\<And>p. p_sessionId (f p) = p_sessionId p"
  shows "map p_sessionId (procs (update_proc pid f srv)) = map p_sessionId (procs srv)"
proof (cases "pid < length (procs srv)")
  case True
  have "map p_sessionId ((procs srv)[pid := f (procs srv ! pid)]) = map p_sessionId (procs srv)"
  proof (rule nth_equalityI)
    show "length (map p_sessionId ((procs srv)[pid := f (procs srv ! pid)])) =
          length (map p_sessionId (procs srv))" by simp
  next
    fix j
    assume "j < length (map p_sessionId ((procs srv)[pid := f (procs srv ! pid)]))"
    then show "map p_sessionId ((procs srv)[pid := f (procs srv ! pid)]) ! j =
               map p_sessionId (procs srv) ! j"
      using True by (cases "j = pid") (simp_all add: assms)
  qed
  with True show ?thesis by (simp add: update_proc_def)
next
  case False
  then show ?thesis by (simp add: update_proc_def)
qed

lemma step_global:
  assumes s'd: "srv' = snd (step rt PROJECT_DIR i srv)"
  shows "map p_sessionId (procs srv') = map p_sessionId (procs srv) @ created_ids PROJECT_DIR [i]"
    and "\<exists>evs. log srv' = log srv @ evs
           \<and> (\<forall>e \<in> set evs. sessionId e \<in> set (map p_sessionId (procs srv')))"
    and "creates PROJECT_DIR i \<Longrightarrow>
         \<exists>body sid' spawned workDir.
           i = PostSession body sid' spawned
           \<and> procs srv' = procs srv @
               [\<lparr>p_sessionId = sid', p_prompt = field body ''prompt'', p_workDir = workDir,
                 buffer = [], fileChanges = [], closed = False, sigterm = 0\<rparr>]
           \<and> log srv' = log srv @ [session_start sid' (field body ''prompt'') workDir]"
proof -
  have "map p_sessionId (procs srv') = map p_sessionId (procs srv) @ created_ids PROJECT_DIR [i]
      \<and> (\<exists>evs. log srv' = log srv @ evs
           \<and> (\<forall>e \<in> set evs. sessionId e \<in> set (map p_sessionId (procs srv'))))
      \<and> (creates PROJECT_DIR i \<longrightarrow>
         (\<exists>body sid' spawned workDir.
           i = PostSession body sid' spawned
           \<and> procs srv' = procs srv @
               [\<lparr>p_sessionId = sid', p_prompt = field body ''prompt'', p_workDir = workDir,
                 buffer = [], fileChanges = [], closed = False, sigterm = 0\<rparr>]
           \<and> log srv' = log srv @ [session_start sid' (field body ''prompt'') workDir]))"
  proof (cases i)
    case (PostSession body sid' spawned)
    show ?thesis
    proof (cases "creates PROJECT_DIR i")
      case False
      then have "srv' = srv"
        using PostSession post_session_rejected [of PROJECT_DIR body sid' spawned srv]
        by (simp add: s'd snd_step del: step.simps)
      with False PostSession show ?thesis by simp
    next
      case True
      from True PostSession post_session_created [of PROJECT_DIR body sid' spawned srv]
      obtain workDir where
        s': "srv' = srv\<lparr>procs := procs srv @
                      [\<lparr>p_sessionId = sid', p_prompt = field body ''prompt'',
                        p_workDir = workDir, buffer = [], fileChanges = [],
                        closed = False, sigterm = 0\<rparr>],
                    sessions := AList.update sid'
                      \<lparr>s_proc = length (procs srv), s_prompt = field body ''prompt'',
                        s_cwd = workDir\<rparr>
                      (sessions srv),
                    log := log srv @
                      [session_start sid' (field body ''prompt'') workDir]\<rparr>"
        by (auto simp: s'd snd_step simp del: step.simps)
      from s' True PostSession show ?thesis by auto
    qed
  next
    case GetSessions
    then show ?thesis by (simp add: s'd)
  next
    case (DeleteSession sid')
    show ?thesis
    proof (cases "map_of (sessions srv) sid'")
      case None
      then have "srv' = srv" using DeleteSession by (simp add: s'd delete_session_def)
      with DeleteSession show ?thesis by simp
    next
      case (Some s)
      then have "srv' = update_proc (s_proc s) (\<lambda>p. p\<lparr>sigterm := sigterm p + 1\<rparr>) srv"
        using DeleteSession by (simp add: s'd delete_session_def)
      with DeleteSession show ?thesis
        by (simp add: update_proc_ids)
    qed
  next
    case (StdoutData q chunk)
    show ?thesis
    proof (cases "running q srv")
      case False
      then have "srv' = srv" using StdoutData by (simp add: s'd deliver_def)
      with StdoutData show ?thesis by simp
    next
      case True
      let ?q = "procs srv ! q"
      obtain lines buf' where dc:
        "decode_chunk (buffer ?q) (Buffer_toString rt chunk) = (lines, buf')"
        by (cases "decode_chunk (buffer ?q) (Buffer_toString rt chunk)") auto
      obtain evs fc' where hl:
        "handle_lines rt (p_sessionId ?q) (p_workDir ?q) lines (fileChanges ?q) = (evs, fc')"
        by (cases "handle_lines rt (p_sessionId ?q) (p_workDir ?q) lines (fileChanges ?q)") auto
      have s': "srv' = broadcast evs
                  (update_proc q (\<lambda>p. p\<lparr>buffer := buf', fileChanges := fc'\<rparr>) srv)"
        using StdoutData True dc hl
        by (simp add: s'd deliver_def on_stdout_data_def Let_def)
      have ev: "\<forall>e \<in> set evs. sessionId e = p_sessionId ?q"
        using handle_lines_frame_events [OF hl] by (simp add: frame_event_def)
      from True have lt: "q < length (procs srv)" by (simp add: running_def)
      from s' lt have ids: "map p_sessionId (procs srv') = map p_sessionId (procs srv)"
        by (simp add: update_proc_ids)
      from lt have "p_sessionId ?q \<in> set (map p_sessionId (procs srv))" by simp
      with ev ids s' StdoutData show ?thesis by simp
    qed
  next
    case (StderrData q chunk)
    show ?thesis
    proof (cases "running q srv")
      case False
      then have "srv' = srv" using StderrData by (simp add: s'd deliver_def)
      with StderrData show ?thesis by simp
    next
      case True
      then have lt: "q < length (procs srv)" by (simp add: running_def)
      have s': "srv' = broadcast [stderr (p_sessionId (procs srv ! q))
                                    (Buffer_toString rt chunk)] srv"
        using StderrData True by (simp add: s'd deliver_def on_stderr_data_def)
      from lt have "p_sessionId (procs srv ! q) \<in> set (map p_sessionId (procs srv))" by simp
      with s' StderrData show ?thesis by simp
    qed
  next
    case (Close q code)
    show ?thesis
    proof (cases "running q srv")
      case False
      then have "srv' = srv" using Close by (simp add: s'd deliver_def)
      with Close show ?thesis by simp
    next
      case True
      then have lt: "q < length (procs srv)" by (simp add: running_def)
      have s': "srv' = update_proc q (\<lambda>p. p\<lparr>closed := True\<rparr>)
                  (broadcast [session_end (p_sessionId (procs srv ! q)) code]
                     (srv\<lparr>sessions := AList.delete (p_sessionId (procs srv ! q))
                                          (sessions srv)\<rparr>))"
        using Close True by (simp add: s'd deliver_def on_close_def Let_def)
      from s' lt have ids: "map p_sessionId (procs srv') = map p_sessionId (procs srv)"
        by (simp add: update_proc_ids)
      from lt have "p_sessionId (procs srv ! q) \<in> set (map p_sessionId (procs srv))" by simp
      with s' ids Close show ?thesis by simp
    qed
  qed
  then show "map p_sessionId (procs srv') =
               map p_sessionId (procs srv) @ created_ids PROJECT_DIR [i]"
    and "\<exists>evs. log srv' = log srv @ evs
           \<and> (\<forall>e \<in> set evs. sessionId e \<in> set (map p_sessionId (procs srv')))"
    and "creates PROJECT_DIR i \<Longrightarrow>
         \<exists>body sid' spawned workDir.
           i = PostSession body sid' spawned
           \<and> procs srv' = procs srv @
               [\<lparr>p_sessionId = sid', p_prompt = field body ''prompt'', p_workDir = workDir,
                 buffer = [], fileChanges = [], closed = False, sigterm = 0\<rparr>]
           \<and> log srv' = log srv @ [session_start sid' (field body ''prompt'') workDir]"
    by blast+
qed


lemma exit_free:
  assumes "\<forall>s \<in> set (butlast sigs). \<not> is_exit s"
    and "\<not> (sigs \<noteq> [] \<and> is_exit (last sigs))"
  shows "\<forall>s \<in> set sigs. \<not> is_exit s"
proof (cases sigs rule: rev_cases)
  case Nil
  then show ?thesis by simp
next
  case (snoc ys y)
  with assms show ?thesis by simp
qed

lemma trace_ok_step:
  assumes ok: "trace_ok rt sigs srv pid"
    and pd: "p = procs srv ! pid" and p'd: "p' = procs srv' ! pid"
    and same: "p_sessionId p' = p_sessionId p" "p_prompt p' = p_prompt p"
      "p_workDir p' = p_workDir p"
    and sr: "session_run rt (p_sessionId p) (p_workDir p) sg (buffer p) (fileChanges p) =
               (evs, buffer p', fileChanges p')"
    and fl: "filter (\<lambda>e. sessionId e = p_sessionId p) (log srv') =
               filter (\<lambda>e. sessionId e = p_sessionId p) (log srv) @ evs"
    and cl: "closed p' \<longleftrightarrow> closed p \<or> (\<exists>code. sg = [Exit code])"
    and sg: "sg = [] \<or> (\<not> closed p \<and> (\<exists>s. sg = [s]))"
  shows "trace_ok rt (sigs @ sg) srv' pid"
proof -
  from ok pd obtain evs0 where
    r0: "session_run rt (p_sessionId p) (p_workDir p) sigs [] [] =
           (evs0, buffer p, fileChanges p)"
    and f0: "filter (\<lambda>e. sessionId e = p_sessionId p) (log srv) =
           session_start (p_sessionId p) (p_prompt p) (p_workDir p) # evs0"
    and b0: "\<forall>s \<in> set (butlast sigs). \<not> is_exit s"
    and c0: "closed p \<longleftrightarrow> sigs \<noteq> [] \<and> is_exit (last sigs)"
    by (auto simp: trace_ok_def Let_def)
  have r1: "session_run rt (p_sessionId p) (p_workDir p) (sigs @ sg) [] [] =
              (evs0 @ evs, buffer p', fileChanges p')"
    by (simp add: session_run_append r0 sr)
  have f1: "filter (\<lambda>e. sessionId e = p_sessionId p) (log srv') =
              session_start (p_sessionId p) (p_prompt p) (p_workDir p) # evs0 @ evs"
    by (simp add: fl f0)
  have b1: "\<forall>s \<in> set (butlast (sigs @ sg)). \<not> is_exit s"
  proof (cases "sg = []")
    case True
    with b0 show ?thesis by simp
  next
    case False
    with sg obtain s where s: "sg = [s]" and nc: "\<not> closed p" by auto
    from exit_free [OF b0] nc c0 have "\<forall>s \<in> set sigs. \<not> is_exit s" by simp
    with s show ?thesis by (simp add: butlast_append)
  qed
  have c1: "closed p' \<longleftrightarrow> sigs @ sg \<noteq> [] \<and> is_exit (last (sigs @ sg))"
  proof (cases "sg = []")
    case True
    with cl c0 show ?thesis by simp
  next
    case False
    with sg obtain s where s: "sg = [s]" and nc: "\<not> closed p" by auto
    with cl show ?thesis by (cases s) auto
  qed
  from r1 f1 b1 c1 same p'd show ?thesis
    by (simp add: trace_ok_def Let_def)
qed

lemma created_ids_single:
  "created_ids PROJECT_DIR [i] = [] \<and> \<not> creates PROJECT_DIR i
   \<or> (\<exists>body sid' spawned. i = PostSession body sid' spawned \<and> creates PROJECT_DIR i
         \<and> created_ids PROJECT_DIR [i] = [sid'])"
  by (cases i) auto


lemma run_invariant:
  assumes "distinct (created_ids PROJECT_DIR ins)"
  shows "map p_sessionId (procs (run rt PROJECT_DIR ins init)) = created_ids PROJECT_DIR ins
       \<and> (\<forall>e \<in> set (log (run rt PROJECT_DIR ins init)).
             sessionId e \<in> set (created_ids PROJECT_DIR ins))
       \<and> (\<forall>pid \<ge> length (procs (run rt PROJECT_DIR ins init)).
             emitted rt PROJECT_DIR pid ins init = [])
       \<and> (\<forall>pid < length (procs (run rt PROJECT_DIR ins init)).
             trace_ok rt (emitted rt PROJECT_DIR pid ins init) (run rt PROJECT_DIR ins init) pid)"
  using assms
proof (induction ins rule: rev_induct)
  case Nil
  show ?case by (simp add: init_def)
next
  case (snoc i ins)
  let ?srv = "run rt PROJECT_DIR ins init"
  let ?srv' = "run rt PROJECT_DIR (ins @ [i]) init"
  have s'd: "?srv' = snd (step rt PROJECT_DIR i ?srv)" by (rule run_snoc)
  from snoc.prems have dist: "distinct (created_ids PROJECT_DIR ins)"
    and disj: "set (created_ids PROJECT_DIR ins) \<inter> set (created_ids PROJECT_DIR [i]) = {}"
    by (simp_all add: created_ids_append)
  from snoc.IH [OF dist] have
    j1: "map p_sessionId (procs ?srv) = created_ids PROJECT_DIR ins"
    and j2: "\<forall>e \<in> set (log ?srv). sessionId e \<in> set (created_ids PROJECT_DIR ins)"
    and j4: "\<forall>pid \<ge> length (procs ?srv). emitted rt PROJECT_DIR pid ins init = []"
    and j3: "\<forall>pid < length (procs ?srv).
               trace_ok rt (emitted rt PROJECT_DIR pid ins init) ?srv pid"
    by blast+
  note g = step_global [OF s'd]
  have j1': "map p_sessionId (procs ?srv') = created_ids PROJECT_DIR (ins @ [i])"
    using g(1) j1 by (simp add: created_ids_append)
  from g(2) obtain evs where lg: "log ?srv' = log ?srv @ evs"
    and ev: "\<forall>e \<in> set evs. sessionId e \<in> set (map p_sessionId (procs ?srv'))"
    by blast
  have j2': "\<forall>e \<in> set (log ?srv'). sessionId e \<in> set (created_ids PROJECT_DIR (ins @ [i]))"
    using lg ev j2 j1' by (auto simp: created_ids_append)
  have len: "length (procs ?srv') = length (procs ?srv) + length (created_ids PROJECT_DIR [i])"
    using g(1) by (metis length_append length_map)
  have j4': "\<forall>pid \<ge> length (procs ?srv'). emitted rt PROJECT_DIR pid (ins @ [i]) init = []"
  proof (intro allI impI)
    fix pid
    assume "length (procs ?srv') \<le> pid"
    with len have ge: "length (procs ?srv) \<le> pid" by simp
    then have "\<not> running pid ?srv" by (simp add: running_def)
    with ge j4 show "emitted rt PROJECT_DIR pid (ins @ [i]) init = []"
      by (simp add: emitted_snoc signal_of_not_running)
  qed
  have j3': "\<forall>pid < length (procs ?srv').
               trace_ok rt (emitted rt PROJECT_DIR pid (ins @ [i]) init) ?srv' pid"
  proof (intro allI impI)
    fix pid
    assume lt': "pid < length (procs ?srv')"
    show "trace_ok rt (emitted rt PROJECT_DIR pid (ins @ [i]) init) ?srv' pid"
    proof (cases "pid < length (procs ?srv)")
      case True
      have di: "distinct (map p_sessionId (procs ?srv))" using j1 dist by simp
      have fr: "set (created_ids PROJECT_DIR [i]) \<inter> set (map p_sessionId (procs ?srv)) = {}"
        using disj j1 by auto
      note loc = step_local [OF True di fr s'd refl refl]
      from loc obtain evs1 where
        sr: "session_run rt (p_sessionId (procs ?srv ! pid)) (p_workDir (procs ?srv ! pid))
               (signal_of pid i ?srv) (buffer (procs ?srv ! pid))
               (fileChanges (procs ?srv ! pid)) =
             (evs1, buffer (procs ?srv' ! pid), fileChanges (procs ?srv' ! pid))"
        and fl: "filter (\<lambda>e. sessionId e = p_sessionId (procs ?srv ! pid)) (log ?srv') =
               filter (\<lambda>e. sessionId e = p_sessionId (procs ?srv ! pid)) (log ?srv) @ evs1"
        by blast
      from loc have same: "p_sessionId (procs ?srv' ! pid) = p_sessionId (procs ?srv ! pid)"
        "p_prompt (procs ?srv' ! pid) = p_prompt (procs ?srv ! pid)"
        "p_workDir (procs ?srv' ! pid) = p_workDir (procs ?srv ! pid)"
        and cl: "closed (procs ?srv' ! pid) \<longleftrightarrow>
                 closed (procs ?srv ! pid) \<or> (\<exists>code. signal_of pid i ?srv = [Exit code])"
        and sg: "signal_of pid i ?srv = [] \<or>
                 (\<not> closed (procs ?srv ! pid) \<and> (\<exists>s. signal_of pid i ?srv = [s]))"
        by blast+
      from j3 True have ok: "trace_ok rt (emitted rt PROJECT_DIR pid ins init) ?srv pid"
        by blast
      from trace_ok_step [OF ok refl refl same sr fl cl sg]
      show ?thesis by (simp add: emitted_snoc)
    next
      case False
      with lt' len have cr: "created_ids PROJECT_DIR [i] \<noteq> []" by auto
      with created_ids_single [of PROJECT_DIR i] obtain body sid' spawned where
        i: "i = PostSession body sid' spawned" and c: "creates PROJECT_DIR i"
        and one: "created_ids PROJECT_DIR [i] = [sid']"
        by auto
      from False lt' len one have pid: "pid = length (procs ?srv)" by simp
      from g(3) [OF c] i obtain workDir where
        pr: "procs ?srv' = procs ?srv @
               [\<lparr>p_sessionId = sid', p_prompt = field body ''prompt'', p_workDir = workDir,
                 buffer = [], fileChanges = [], closed = False, sigterm = 0\<rparr>]"
        and lg': "log ?srv' = log ?srv @ [session_start sid' (field body ''prompt'') workDir]"
        by auto
      from disj one have "sid' \<notin> set (created_ids PROJECT_DIR ins)" by simp
      with j2 have none: "filter (\<lambda>e. sessionId e = sid') (log ?srv) = []"
        by (auto simp: filter_empty_conv)
      have nr: "\<not> running pid ?srv" using pid by (simp add: running_def)
      from j4 pid have "emitted rt PROJECT_DIR pid ins init = []" by simp
      then have em: "emitted rt PROJECT_DIR pid (ins @ [i]) init = []"
        using signal_of_not_running [OF nr, of i] by (simp only: emitted_snoc append_Nil)
      show ?thesis
        unfolding em using pr lg' none pid by (simp add: trace_ok_def Let_def)
    qed
  qed
  from j1' j2' j4' j3' show ?case by blast
qed


lemma session_run_events:
  "\<forall>s \<in> set outs. \<not> is_exit s \<Longrightarrow>
   session_run rt sid workDir outs buf fc = (evs, state) \<Longrightarrow>
   \<forall>e \<in> set evs. sessionId e = sid \<and> event_type e \<noteq> ''session_start''
                  \<and> event_type e \<noteq> ''session_end''"
proof (induction outs arbitrary: buf fc evs state)
  case Nil
  then show ?case by simp
next
  case (Cons s outs)
  show ?case
  proof (cases s)
    case (Out chunk)
    obtain lines buf' where dc: "decode_chunk buf (Buffer_toString rt chunk) = (lines, buf')"
      by (cases "decode_chunk buf (Buffer_toString rt chunk)") auto
    obtain evs1 fc' where hl: "handle_lines rt sid workDir lines fc = (evs1, fc')"
      by (cases "handle_lines rt sid workDir lines fc") auto
    obtain evs2 state2 where sr: "session_run rt sid workDir outs buf' fc' = (evs2, state2)"
      by (cases "session_run rt sid workDir outs buf' fc'") auto
    from Cons.prems(2) Out dc hl sr have ev: "evs = evs1 @ evs2" by simp
    from Cons.prems(1) have "\<forall>s \<in> set outs. \<not> is_exit s" by simp
    from Cons.IH [OF this sr] handle_lines_frame_events [OF hl] ev show ?thesis
      by (auto simp: frame_event_def)
  next
    case (Err chunk)
    obtain evs2 state2 where sr: "session_run rt sid workDir outs buf fc = (evs2, state2)"
      by (cases "session_run rt sid workDir outs buf fc") auto
    from Cons.prems(2) Err sr have ev: "evs = stderr sid (Buffer_toString rt chunk) # evs2"
      by simp
    from Cons.prems(1) have "\<forall>s \<in> set outs. \<not> is_exit s" by simp
    from Cons.IH [OF this sr] ev show ?thesis by auto
  next
    case (Exit code)
    with Cons.prems(1) show ?thesis by simp
  qed
qed

lemma session_run_frames:
  "\<forall>s \<in> set outs. \<not> is_exit s \<Longrightarrow>
   session_run rt sid workDir outs buf fc = (evs, buf', fc') \<Longrightarrow>
   filter (\<lambda>e. event_type e \<noteq> ''stderr'') evs =
     fst (handle_lines rt sid workDir (fst (decode_all buf (stdout_text rt outs))) fc)
   \<and> buf' = snd (decode_all buf (stdout_text rt outs))
   \<and> fc' = snd (handle_lines rt sid workDir (fst (decode_all buf (stdout_text rt outs))) fc)"
proof (induction outs arbitrary: buf fc evs)
  case Nil
  then show ?case by simp
next
  case (Cons s outs)
  from Cons.prems(1) have ef: "\<forall>s \<in> set outs. \<not> is_exit s" by simp
  show ?case
  proof (cases s)
    case (Out chunk)
    obtain lines buf1 where dc: "decode_chunk buf (Buffer_toString rt chunk) = (lines, buf1)"
      by (cases "decode_chunk buf (Buffer_toString rt chunk)") auto
    obtain evs1 fc1 where hl: "handle_lines rt sid workDir lines fc = (evs1, fc1)"
      by (cases "handle_lines rt sid workDir lines fc") auto
    obtain evs2 where sr: "session_run rt sid workDir outs buf1 fc1 = (evs2, buf', fc')"
      and ev: "evs = evs1 @ evs2"
      using Cons.prems(2) Out dc hl by (auto split: prod.splits)
    note ih = Cons.IH [OF ef sr]
    obtain lines2 rest where da: "decode_all buf1 (stdout_text rt outs) = (lines2, rest)"
      by (cases "decode_all buf1 (stdout_text rt outs)") auto
    obtain evs3 fc3 where h2: "handle_lines rt sid workDir lines2 fc1 = (evs3, fc3)"
      by (cases "handle_lines rt sid workDir lines2 fc1") auto
    have f1: "filter (\<lambda>e. event_type e \<noteq> ''stderr'') evs1 = evs1"
      using handle_lines_frame_events [OF hl] by (simp add: filter_all frame_event_def)
    from ih da h2 ev f1 show ?thesis
      using Out dc hl by (simp add: handle_lines_append)
  next
    case (Err chunk)
    obtain evs2 where sr: "session_run rt sid workDir outs buf fc = (evs2, buf', fc')"
      and ev: "evs = stderr sid (Buffer_toString rt chunk) # evs2"
      using Cons.prems(2) Err by (auto split: prod.splits)
    from Cons.IH [OF ef sr] ev Err show ?thesis by simp
  next
    case (Exit code)
    with Cons.prems(1) show ?thesis by simp
  qed
qed

lemma session_run_exit:
  "session_run rt sid workDir (outs @ [Exit code]) buf fc =
     (fst (session_run rt sid workDir outs buf fc) @ [session_end sid code],
      snd (session_run rt sid workDir outs buf fc))"
  by (simp add: session_run_append split: prod.splits)


text \<open>
  C5. Take any sequence of requests and process events, handled one after the other
  from the start of the server, in which the session ids made for the created sessions
  are all different; take any process of the resulting state, with session id \<open>sid\<close>. Then
  the events of the log that bear \<open>sid\<close> are, in this order: \<open>session_start\<close>; the events
  the callbacks of that process broadcast for the chunks of output it gave, none of them
  \<open>session_start\<close> or \<open>session_end\<close>; and, when the process has closed, one \<open>session_end\<close>
  with the exit code of its close, which was its last signal. Leaving \<open>stderr\<close> events
  aside, the events in between are those of the lines decoded from the standard output,
  line after line in the order they were decoded.
\<close>

theorem session_event_order:
  assumes "distinct (created_ids PROJECT_DIR ins)"
    and "srv = run rt PROJECT_DIR ins init"
    and "pid < length (procs srv)"
    and "p = procs srv ! pid"
    and "sid = p_sessionId p"
  shows "\<exists>outs body ending.
           (\<forall>s \<in> set outs. \<not> is_exit s)
         \<and> (closed p \<longrightarrow>
               (\<exists>code. emitted rt PROJECT_DIR pid ins init = outs @ [Exit code]
                    \<and> ending = [session_end sid code]))
         \<and> (\<not> closed p \<longrightarrow> emitted rt PROJECT_DIR pid ins init = outs \<and> ending = [])
         \<and> body = fst (session_run rt sid (p_workDir p) outs [] [])
         \<and> filter (\<lambda>e. sessionId e = sid) (log srv) =
             session_start sid (p_prompt p) (p_workDir p) # body @ ending
         \<and> (\<forall>e \<in> set body. sessionId e = sid \<and> event_type e \<noteq> ''session_start''
                            \<and> event_type e \<noteq> ''session_end'')
         \<and> filter (\<lambda>e. event_type e \<noteq> ''stderr'') body =
             fst (handle_lines rt sid (p_workDir p)
                    (fst (decode_all [] (stdout_text rt outs))) [])"
proof -
  let ?sigs = "emitted rt PROJECT_DIR pid ins init"
  from run_invariant [OF assms(1), of rt] assms(2,3)
  have ok: "trace_ok rt ?sigs srv pid" by blast
  with assms(4,5) obtain evs where
    r0: "session_run rt sid (p_workDir p) ?sigs [] [] = (evs, buffer p, fileChanges p)"
    and f0: "filter (\<lambda>e. sessionId e = sid) (log srv) =
           session_start sid (p_prompt p) (p_workDir p) # evs"
    and b0: "\<forall>s \<in> set (butlast ?sigs). \<not> is_exit s"
    and c0: "closed p \<longleftrightarrow> ?sigs \<noteq> [] \<and> is_exit (last ?sigs)"
    by (auto simp: trace_ok_def Let_def)
  show ?thesis
  proof (cases "closed p")
    case False
    with c0 b0 have ef: "\<forall>s \<in> set ?sigs. \<not> is_exit s"
      using exit_free by blast
    have bd: "evs = fst (session_run rt sid (p_workDir p) ?sigs [] [])"
      using r0 by simp
    note ev = session_run_events [OF ef r0]
    note fr = session_run_frames [OF ef r0]
    from False ef bd f0 ev fr show ?thesis by auto
  next
    case True
    with c0 have ne: "?sigs \<noteq> []" and ex: "is_exit (last ?sigs)" by simp_all
    from ex obtain code where lc: "last ?sigs = Exit code"
      by (cases "last ?sigs") simp_all
    let ?outs = "butlast ?sigs"
    from lc have sp: "?sigs = ?outs @ [Exit code]"
      using append_butlast_last_id [OF ne] by simp
    obtain body state where r1: "session_run rt sid (p_workDir p) ?outs [] [] = (body, state)"
      by (cases "session_run rt sid (p_workDir p) ?outs [] []") auto
    have "session_run rt sid (p_workDir p) (?outs @ [Exit code]) [] [] =
            (body @ [session_end sid code], state)"
      by (simp add: session_run_exit r1)
    with sp r0 have ev: "evs = body @ [session_end sid code]" by simp
    obtain buf' fc' where st: "state = (buf', fc')" by (cases state) auto
    note e1 = session_run_events [OF b0 r1]
    note f1 = session_run_frames [OF b0 r1 [unfolded st]]
    have bd: "body = fst (session_run rt sid (p_workDir p) ?outs [] [])"
      using r1 by simp
    from True b0 sp ev f0 e1 f1 bd show ?thesis by blast
  qed
qed


lemma toString_utf8: "Buffer_toString example_runtime (utf8 s) = s"
proof -
  have "char_of (unat (of_nat (of_char c) :: 8 word)) = c" for c :: char
    by (simp add: unat_of_nat)
  then show ?thesis
    by (simp add: example_runtime_def utf8_def comp_def map_idI)
qed

lemma decode_line:
  "newline \<notin> set l \<Longrightarrow> decode_chunk [] (l @ [newline]) = ([l], [])"
proof -
  assume "newline \<notin> set l"
  then have "split_nl (l @ [newline]) = [l, []]"
    by (induction l) auto
  then show ?thesis by (simp add: decode_chunk_def)
qed

lemma example_lines_no_newline:
  "newline \<notin> set write_line" "newline \<notin> set result_line" "newline \<notin> set ''not json''"
  by (simp_all add: write_line_def result_line_def newline_def)

lemma handle_not_json:
  "handle_line example_runtime sid workDir ''not json'' fc = ([raw_output sid ''not json''], fc)"
  by (simp add: handle_line_def trim_empty_iff isWhiteSpace_def example_runtime_def
      write_line_def result_line_def note_line_def)

lemma two_sessions_run:
  "run example_runtime ''/proj'' two_sessions init = two_sessions_end"
proof -
  let ?p1 = "\<lparr>p_sessionId = ''s1'', p_prompt = Str ''hello'', p_workDir = ''/w'',
                buffer = [], fileChanges = [], closed = False, sigterm = 0\<rparr>"
  let ?p2 = "\<lparr>p_sessionId = ''s2'', p_prompt = Str ''bye'', p_workDir = ''/w'',
                buffer = [], fileChanges = [], closed = False, sigterm = 0\<rparr>"
  let ?e1 = "session_start ''s1'' (Str ''hello'') ''/w''"
  let ?e2 = "session_start ''s2'' (Str ''bye'') ''/w''"
  let ?ss1 = "(''s1'', \<lparr>s_proc = 0, s_prompt = Str ''hello'', s_cwd = ''/w''\<rparr>)"
  let ?ss2 = "(''s2'', \<lparr>s_proc = Suc 0, s_prompt = Str ''bye'', s_cwd = ''/w''\<rparr>)"
  let ?w = "[agent_event ''s1'' write_frame,
             fe_tool_call ''s1'' (Str ''x1'')
               [(''tool'', Str ''write''), (''filePath'', Str ''/w/a.txt''),
                (''content'', Str ''hi''), (''description'', Str ''Create a.txt'')]]"
  let ?r = "[agent_event ''s1'' result_frame,
             fe_tool_result ''s1'' (Str ''x1'') (Str ''ok''),
             fe_file_changed ''s1'' (Str ''/w/a.txt'') ''write'']"
  let ?S1 = "\<lparr>sessions = [?ss1], procs = [?p1], log = [?e1]\<rparr>"
  let ?S2 = "\<lparr>sessions = [?ss1, ?ss2], procs = [?p1, ?p2], log = [?e1, ?e2]\<rparr>"
  let ?S3 = "\<lparr>sessions = [?ss1, ?ss2], procs = [?p1\<lparr>fileChanges := x1_written\<rparr>, ?p2],
             log = [?e1, ?e2] @ ?w\<rparr>"
  let ?S4 = "\<lparr>sessions = [?ss1, ?ss2], procs = [?p1\<lparr>fileChanges := x1_written\<rparr>, ?p2],
             log = [?e1, ?e2] @ ?w @ [raw_output ''s2'' ''not json'']\<rparr>"
  let ?S5 = "\<lparr>sessions = [?ss1, ?ss2], procs = [?p1\<lparr>fileChanges := x1_written\<rparr>, ?p2],
             log = [?e1, ?e2] @ ?w @ [raw_output ''s2'' ''not json'', stderr ''s1'' ''warn'']\<rparr>"
  let ?S6 = "\<lparr>sessions = [?ss1, ?ss2], procs = [?p1\<lparr>fileChanges := x1_written\<rparr>, ?p2],
             log = [?e1, ?e2] @ ?w @ [raw_output ''s2'' ''not json'', stderr ''s1'' ''warn'']
                   @ ?r\<rparr>"
  let ?S7 = "\<lparr>sessions = [?ss1],
             procs = [?p1\<lparr>fileChanges := x1_written\<rparr>, ?p2\<lparr>closed := True\<rparr>],
             log = [?e1, ?e2] @ ?w @ [raw_output ''s2'' ''not json'', stderr ''s1'' ''warn'']
                   @ ?r @ [session_end ''s2'' (Some 1)]\<rparr>"
  have s1: "snd (step example_runtime ''/proj'' post1 init) = ?S1"
    by (simp add: post1_def post_session_def spawnAgent_def or_else_def Let_def init_def
        broadcast_def)
  have s2: "snd (step example_runtime ''/proj'' post2 ?S1) = ?S2"
    by (simp add: post2_def post_session_def spawnAgent_def or_else_def Let_def
        broadcast_def)
  have s3: "snd (step example_runtime ''/proj''
                   (StdoutData 0 (utf8 (write_line @ [newline]))) ?S2) = ?S3"
    by (simp add: deliver_def running_def on_stdout_data_def toString_utf8
        decode_line example_lines_no_newline handle_write_line update_proc_def broadcast_def)
  have s4: "snd (step example_runtime ''/proj''
                   (StdoutData 1 (utf8 (''not json'' @ [newline]))) ?S3) = ?S4"
    by (simp add: deliver_def running_def on_stdout_data_def toString_utf8
        decode_line [OF example_lines_no_newline(3)] handle_not_json update_proc_def
        broadcast_def del: append.simps)
  have s5: "snd (step example_runtime ''/proj'' (StderrData 0 (utf8 ''warn'')) ?S4) = ?S5"
    by (simp add: deliver_def running_def on_stderr_data_def toString_utf8 broadcast_def)
  have s6: "snd (step example_runtime ''/proj''
                   (StdoutData 0 (utf8 (result_line @ [newline]))) ?S5) = ?S6"
    by (simp add: deliver_def running_def on_stdout_data_def toString_utf8
        decode_line example_lines_no_newline handle_result_line update_proc_def broadcast_def)
  have s7: "snd (step example_runtime ''/proj'' (Close 1 (Some 1)) ?S6) = ?S7"
    by (simp add: deliver_def running_def on_close_def update_proc_def broadcast_def Let_def)
  have s8: "snd (step example_runtime ''/proj'' (Close 0 None) ?S7) = two_sessions_end"
    by (simp add: deliver_def running_def on_close_def update_proc_def broadcast_def Let_def
        two_sessions_end_def)
  show ?thesis
    unfolding two_sessions_def by (simp only: run.simps s1 s2 s3 s4 s5 s6 s7 s8)
qed


theorem session_event_order_witness:
  "distinct (created_ids ''/proj'' two_sessions)
   \<and> created_ids ''/proj'' two_sessions = [''s1'', ''s2'']
   \<and> run example_runtime ''/proj'' two_sessions init = two_sessions_end
   \<and> 0 < length (procs two_sessions_end) \<and> 1 < length (procs two_sessions_end)
   \<and> filter (\<lambda>e. sessionId e = ''s1'') (log two_sessions_end) =
       [session_start ''s1'' (Str ''hello'') ''/w'',
        agent_event ''s1'' write_frame,
        fe_tool_call ''s1'' (Str ''x1'')
          [(''tool'', Str ''write''), (''filePath'', Str ''/w/a.txt''),
           (''content'', Str ''hi''), (''description'', Str ''Create a.txt'')],
        stderr ''s1'' ''warn'',
        agent_event ''s1'' result_frame,
        fe_tool_result ''s1'' (Str ''x1'') (Str ''ok''),
        fe_file_changed ''s1'' (Str ''/w/a.txt'') ''write'',
        session_end ''s1'' None]
   \<and> filter (\<lambda>e. sessionId e = ''s2'') (log two_sessions_end) =
       [session_start ''s2'' (Str ''bye'') ''/w'',
        raw_output ''s2'' ''not json'',
        session_end ''s2'' (Some 1)]
   \<and> (\<exists>outs body code.
         (\<forall>s \<in> set outs. \<not> is_exit s)
         \<and> emitted example_runtime ''/proj'' 0 two_sessions init = outs @ [Exit code]
         \<and> filter (\<lambda>e. sessionId e = ''s1'') (log two_sessions_end) =
             session_start ''s1'' (Str ''hello'') ''/w'' # body @ [session_end ''s1'' code]
         \<and> (\<forall>e \<in> set body. sessionId e = ''s1'' \<and> event_type e \<noteq> ''session_start''
                            \<and> event_type e \<noteq> ''session_end'')
         \<and> filter (\<lambda>e. event_type e \<noteq> ''stderr'') body =
             fst (handle_lines example_runtime ''s1'' ''/w''
                    (fst (decode_all [] (stdout_text example_runtime outs))) []))
   \<and> (\<exists>outs body code.
         (\<forall>s \<in> set outs. \<not> is_exit s)
         \<and> emitted example_runtime ''/proj'' 1 two_sessions init = outs @ [Exit code]
         \<and> filter (\<lambda>e. sessionId e = ''s2'') (log two_sessions_end) =
             session_start ''s2'' (Str ''bye'') ''/w'' # body @ [session_end ''s2'' code]
         \<and> (\<forall>e \<in> set body. sessionId e = ''s2'' \<and> event_type e \<noteq> ''session_start''
                            \<and> event_type e \<noteq> ''session_end'')
         \<and> filter (\<lambda>e. event_type e \<noteq> ''stderr'') body =
             fst (handle_lines example_runtime ''s2'' ''/w''
                    (fst (decode_all [] (stdout_text example_runtime outs))) []))"
proof -
  have ci: "created_ids ''/proj'' two_sessions = [''s1'', ''s2'']"
    by (simp add: two_sessions_def post1_def post2_def or_else_def)
  then have di: "distinct (created_ids ''/proj'' two_sessions)" by simp
  note rn = two_sessions_run
  have l0: "0 < length (procs two_sessions_end)" and l1: "1 < length (procs two_sessions_end)"
    by (simp_all add: two_sessions_end_def)
  have p0: "p_sessionId (procs two_sessions_end ! 0) = ''s1''"
    "p_prompt (procs two_sessions_end ! 0) = Str ''hello''"
    "p_workDir (procs two_sessions_end ! 0) = ''/w''"
    "closed (procs two_sessions_end ! 0)"
    by (simp_all add: two_sessions_end_def)
  have p1: "p_sessionId (procs two_sessions_end ! 1) = ''s2''"
    "p_prompt (procs two_sessions_end ! 1) = Str ''bye''"
    "p_workDir (procs two_sessions_end ! 1) = ''/w''"
    "closed (procs two_sessions_end ! 1)"
    by (simp_all add: two_sessions_end_def)
  have f1: "filter (\<lambda>e. sessionId e = ''s1'') (log two_sessions_end) =
       [session_start ''s1'' (Str ''hello'') ''/w'',
        agent_event ''s1'' write_frame,
        fe_tool_call ''s1'' (Str ''x1'')
          [(''tool'', Str ''write''), (''filePath'', Str ''/w/a.txt''),
           (''content'', Str ''hi''), (''description'', Str ''Create a.txt'')],
        stderr ''s1'' ''warn'',
        agent_event ''s1'' result_frame,
        fe_tool_result ''s1'' (Str ''x1'') (Str ''ok''),
        fe_file_changed ''s1'' (Str ''/w/a.txt'') ''write'',
        session_end ''s1'' None]"
    by (simp add: two_sessions_end_def)
  have f2: "filter (\<lambda>e. sessionId e = ''s2'') (log two_sessions_end) =
       [session_start ''s2'' (Str ''bye'') ''/w'',
        raw_output ''s2'' ''not json'',
        session_end ''s2'' (Some 1)]"
    by (simp add: two_sessions_end_def)
  note th0 = session_event_order [OF di rn [symmetric] l0 refl refl, unfolded p0(1-3)]
  note th1 = session_event_order [OF di rn [symmetric] l1 refl refl, unfolded p1(1-3)]
  from th0 obtain outs body ending where
    a1: "\<forall>s \<in> set outs. \<not> is_exit s"
    and a2: "closed (procs two_sessions_end ! 0) \<longrightarrow>
               (\<exists>code. emitted example_runtime ''/proj'' 0 two_sessions init = outs @ [Exit code]
                    \<and> ending = [session_end ''s1'' code])"
    and a3: "filter (\<lambda>e. sessionId e = ''s1'') (log two_sessions_end) =
             session_start ''s1'' (Str ''hello'') ''/w'' # body @ ending"
    and a4: "\<forall>e \<in> set body. sessionId e = ''s1'' \<and> event_type e \<noteq> ''session_start''
                            \<and> event_type e \<noteq> ''session_end''"
    and a5: "filter (\<lambda>e. event_type e \<noteq> ''stderr'') body =
             fst (handle_lines example_runtime ''s1'' ''/w''
                    (fst (decode_all [] (stdout_text example_runtime outs))) [])"
    by blast
  from a2 p0(4) obtain code where
    a6: "emitted example_runtime ''/proj'' 0 two_sessions init = outs @ [Exit code]"
    and a7: "ending = [session_end ''s1'' code]"
    by blast
  have e0: "\<exists>outs body code.
         (\<forall>s \<in> set outs. \<not> is_exit s)
         \<and> emitted example_runtime ''/proj'' 0 two_sessions init = outs @ [Exit code]
         \<and> filter (\<lambda>e. sessionId e = ''s1'') (log two_sessions_end) =
             session_start ''s1'' (Str ''hello'') ''/w'' # body @ [session_end ''s1'' code]
         \<and> (\<forall>e \<in> set body. sessionId e = ''s1'' \<and> event_type e \<noteq> ''session_start''
                            \<and> event_type e \<noteq> ''session_end'')
         \<and> filter (\<lambda>e. event_type e \<noteq> ''stderr'') body =
             fst (handle_lines example_runtime ''s1'' ''/w''
                    (fst (decode_all [] (stdout_text example_runtime outs))) [])"
    using a1 a3 a4 a5 a6 a7 by blast
  from th1 obtain outs body ending where
    a1: "\<forall>s \<in> set outs. \<not> is_exit s"
    and a2: "closed (procs two_sessions_end ! 1) \<longrightarrow>
               (\<exists>code. emitted example_runtime ''/proj'' 1 two_sessions init = outs @ [Exit code]
                    \<and> ending = [session_end ''s2'' code])"
    and a3: "filter (\<lambda>e. sessionId e = ''s2'') (log two_sessions_end) =
             session_start ''s2'' (Str ''bye'') ''/w'' # body @ ending"
    and a4: "\<forall>e \<in> set body. sessionId e = ''s2'' \<and> event_type e \<noteq> ''session_start''
                            \<and> event_type e \<noteq> ''session_end''"
    and a5: "filter (\<lambda>e. event_type e \<noteq> ''stderr'') body =
             fst (handle_lines example_runtime ''s2'' ''/w''
                    (fst (decode_all [] (stdout_text example_runtime outs))) [])"
    by blast
  from a2 p1(4) obtain code where
    a6: "emitted example_runtime ''/proj'' 1 two_sessions init = outs @ [Exit code]"
    and a7: "ending = [session_end ''s2'' code]"
    by blast
  have e1: "\<exists>outs body code.
         (\<forall>s \<in> set outs. \<not> is_exit s)
         \<and> emitted example_runtime ''/proj'' 1 two_sessions init = outs @ [Exit code]
         \<and> filter (\<lambda>e. sessionId e = ''s2'') (log two_sessions_end) =
             session_start ''s2'' (Str ''bye'') ''/w'' # body @ [session_end ''s2'' code]
         \<and> (\<forall>e \<in> set body. sessionId e = ''s2'' \<and> event_type e \<noteq> ''session_start''
                            \<and> event_type e \<noteq> ''session_end'')
         \<and> filter (\<lambda>e. event_type e \<noteq> ''stderr'') body =
             fst (handle_lines example_runtime ''s2'' ''/w''
                    (fst (decode_all [] (stdout_text example_runtime outs))) [])"
    using a1 a3 a4 a5 a6 a7 by blast
  from di ci rn l0 l1 f1 f2 e0 e1 show ?thesis by (intro conjI)
qed

end
